theory Spec2Isabelle
  imports Complex_Main "HOL-Library.Multiset"
begin

section \<open>Common data model\<close>

text \<open>
  The exceptions that the modelled Python functions raise, as values. A function that can
  raise returns \<open>error + 'a\<close>, with \<open>Inl\<close> for the exception.
\<close>

datatype error = AssertionError | KeyError | TypeError | StatisticsError | AttributeError
  | RRuntimeError

text \<open>
  A floating point cell of a table: NaN or a number. Comparisons with NaN are false, as in
  IEEE arithmetic.
\<close>

datatype number = NaN | Num real

fun gt :: "number \<Rightarrow> number \<Rightarrow> bool" where
  "gt (Num a) (Num b) = (b < a)"
| "gt _ _ = False"

text \<open>
  A pandas DataFrame: the row labels (\<open>index\<close>) and the columns in order, each a label with
  its values. Column labels may repeat, as pandas allows.
\<close>

record 'g DataFrame =
  index :: "'g list"
  series :: "(string \<times> number list) list"

definition columns :: "'g DataFrame \<Rightarrow> string list" where
  "columns df = map fst (series df)"

text \<open>\<^verbatim>\<open>df.empty\<close>: true when either axis has length 0.\<close>

definition empty :: "'g DataFrame \<Rightarrow> bool" where
  "empty df = (index df = [] \<or> series df = [])"

text \<open>
  \<^verbatim>\<open>df[[name, ...]]\<close>: the columns with the listed labels, in the order of the list.
  A label that no column has raises KeyError; a label that several columns share selects
  all of them; a label listed twice selects its columns twice.
\<close>

definition getitem :: "'g DataFrame \<Rightarrow> string list \<Rightarrow> error + 'g DataFrame" where
  "getitem df names =
     (if \<exists>n \<in> set names. n \<notin> set (columns df) then Inl KeyError
      else Inr (df\<lparr>series := concat (map (\<lambda>n. filter (\<lambda>c. fst c = n) (series df)) names)\<rparr>))"

section \<open>data\_sources/tcga: ExpressionManager\<close>

text \<open>
  \<^verbatim>\<open>TCGABarcode\<close> (data\_sources/tcga/barcode.py) is not among the sources. An object of the
  class is the record of the three attributes the ExpressionManager reads; \<open>barcode\<close> is the
  string the object was built from, and how the participant and the sample type are read off
  that string is a parameter, as is the table \<^verbatim>\<open>TCGABarcode.sample_type_ranges\<close>, of which only
  the values are used. Barcode objects are compared by value (TCGA.mutations looks
  \<^verbatim>\<open>TCGABarcode\<close> keys up in a dict by fresh objects).

  A Python set of barcodes is the duplicate-free list of its elements; the order in which the
  interpreter iterates over it is the parameter \<open>set_iter\<close>.
\<close>

record TCGABarcode =
  barcode :: string
  participant :: string
  sample_type :: string

record tcga =
  participant_of :: "string \<Rightarrow> string"
  sample_type_of :: "string \<Rightarrow> string"
  sample_type_ranges_values :: "string list"
  set_iter :: "TCGABarcode list \<Rightarrow> TCGABarcode list"

definition mk_barcode :: "tcga \<Rightarrow> string \<Rightarrow> TCGABarcode" where
  "mk_barcode E column_name =
     \<lparr>barcode = column_name,
      participant = participant_of E column_name,
      sample_type = sample_type_of E column_name\<rparr>"

text \<open>\<^verbatim>\<open>ExpressionManager.barcodes\<close> and \<^verbatim>\<open>ExpressionManager.classes\<close>.\<close>

definition barcodes :: "tcga \<Rightarrow> 'g DataFrame \<Rightarrow> TCGABarcode list" where
  "barcodes E df = map (mk_barcode E) (columns df)"

definition classes :: "tcga \<Rightarrow> 'g DataFrame \<Rightarrow> string list" where
  "classes E df = map sample_type (barcodes E df)"

text \<open>
  \<^verbatim>\<open>ParticipantSamples.by_type[t]\<close>: the dict has one key per value of
  \<^verbatim>\<open>sample_type_ranges\<close>, so any other key raises KeyError.
\<close>

definition by_type :: "tcga \<Rightarrow> TCGABarcode list \<Rightarrow> string \<Rightarrow> error + TCGABarcode list" where
  "by_type E samples t =
     (if t \<in> set (sample_type_ranges_values E)
      then Inr (remdups (filter (\<lambda>b. sample_type b = t) samples))
      else Inl KeyError)"

text \<open>
  \<^verbatim>\<open>samples_by_participant\<close>: a defaultdict filled in column order, so the participants
  stand in the order of their first column and each list keeps the column order.
\<close>

fun append_sample ::
  "(string \<times> TCGABarcode list) list \<Rightarrow> TCGABarcode \<Rightarrow> (string \<times> TCGABarcode list) list" where
  "append_sample [] b = [(participant b, [b])]"
| "append_sample ((p, ss) # rest) b =
     (if p = participant b then (p, ss @ [b]) # rest else (p, ss) # append_sample rest b)"

definition samples_by_participant ::
  "tcga \<Rightarrow> 'g DataFrame \<Rightarrow> (string \<times> TCGABarcode list) list" where
  "samples_by_participant E df = foldl append_sample [] (barcodes E df)"

text \<open>Truthiness of the optional arguments, and the slice \<^verbatim>\<open>xs[:k]\<close>.\<close>

definition truthy_int :: "int option \<Rightarrow> bool" where
  "truthy_int v = (case v of None \<Rightarrow> False | Some k \<Rightarrow> k \<noteq> 0)"

definition truthy_str :: "string option \<Rightarrow> bool" where
  "truthy_str v = (case v of None \<Rightarrow> False | Some s \<Rightarrow> s \<noteq> [])"

definition slice_to :: "'a list \<Rightarrow> int \<Rightarrow> 'a list" where
  "slice_to xs k = (if 0 \<le> k then take (nat k) xs else take (nat (int (length xs) + k)) xs)"

text \<open>The body of the loop of \<^verbatim>\<open>paired\<close> for one participant: what is appended.\<close>

definition paired_samples ::
  "tcga \<Rightarrow> string \<Rightarrow> string \<Rightarrow> int option \<Rightarrow> string option \<Rightarrow> TCGABarcode list
     \<Rightarrow> error + TCGABarcode list" where
  "paired_samples E type_one type_two limit_to spread participant_samples =
     (case by_type E participant_samples type_one of
        Inl e \<Rightarrow> Inl e
      | Inr one \<Rightarrow>
          if one = [] then Inr []
          else
            (case by_type E participant_samples type_two of
               Inl e \<Rightarrow> Inl e
             | Inr two \<Rightarrow>
                 if two = [] then Inr []
                 else if truthy_int limit_to then
                   Inr (slice_to (set_iter E one) (the limit_to)
                        @ slice_to (set_iter E two) (the limit_to))
                 else if truthy_str spread then
                   (if the spread \<noteq> type_one \<and> the spread \<noteq> type_two then Inl AssertionError
                    else
                      (let not_spread = hd (remove1 (the spread) [type_one, type_two]) in
                       case by_type E participant_samples not_spread of
                         Inl e \<Rightarrow> Inl e
                       | Inr cases \<Rightarrow>
                           (case by_type E participant_samples (the spread) of
                              Inl e \<Rightarrow> Inl e
                            | Inr controls \<Rightarrow>
                                if length controls \<noteq> 1 then Inl AssertionError
                                else Inr (set_iter E cases
                                          @ concat (replicate (length cases)
                                                      (set_iter E controls))))))
                 else Inr participant_samples))"

fun paired_loop ::
  "tcga \<Rightarrow> string \<Rightarrow> string \<Rightarrow> int option \<Rightarrow> string option \<Rightarrow> TCGABarcode list list
     \<Rightarrow> TCGABarcode list \<Rightarrow> error + TCGABarcode list" where
  "paired_loop E type_one type_two limit_to spread [] acc = Inr acc"
| "paired_loop E type_one type_two limit_to spread (ps # rest) acc =
     (case paired_samples E type_one type_two limit_to spread ps of
        Inl e \<Rightarrow> Inl e
      | Inr new \<Rightarrow> paired_loop E type_one type_two limit_to spread rest (acc @ new))"

definition paired ::
  "tcga \<Rightarrow> 'g DataFrame \<Rightarrow> string \<Rightarrow> string \<Rightarrow> int option \<Rightarrow> string option
     \<Rightarrow> error + 'g DataFrame" where
  "paired E df type_one type_two limit_to spread =
     (if truthy_str spread \<and> truthy_int limit_to then Inl AssertionError
      else
        (case paired_loop E type_one type_two limit_to spread
                (map snd (samples_by_participant E df)) [] of
           Inl e \<Rightarrow> Inl e
         | Inr chosen \<Rightarrow> getitem df (map barcode chosen)))"

text \<open>
  \<^verbatim>\<open>split\<close>: None when the subset is empty, otherwise the columns of each class.
  \<^verbatim>\<open>paired.columns[paired.classes == case_]\<close> picks the labels by position.
\<close>

definition columns_of_class :: "tcga \<Rightarrow> 'g DataFrame \<Rightarrow> string \<Rightarrow> string list" where
  "columns_of_class E df t =
     map fst (filter (\<lambda>(name, cls). cls = t) (zip (columns df) (classes E df)))"

definition split ::
  "tcga \<Rightarrow> 'g DataFrame \<Rightarrow> string \<Rightarrow> string \<Rightarrow> bool
     \<Rightarrow> error + ('g DataFrame \<times> 'g DataFrame) option" where
  "split E df case' control' only_paired =
     (case (if only_paired then paired E df case' control' None None else Inr df) of
        Inl e \<Rightarrow> Inl e
      | Inr p \<Rightarrow>
          if empty p then Inr None
          else
            (case getitem p (columns_of_class E p case') of
               Inl e \<Rightarrow> Inl e
             | Inr cases \<Rightarrow>
                 (case getitem p (columns_of_class E p control') of
                    Inl e \<Rightarrow> Inl e
                  | Inr controls \<Rightarrow> Inr (Some (cases, controls)))))"

subsection \<open>ExpressionManager.differential\<close>













section \<open>signature\_scoring/scoring\_functions/gsva\<close>

text \<open>
  The argument of \<^verbatim>\<open>gsva\<close> is a \<^verbatim>\<open>Profile\<close> or an \<^verbatim>\<open>ExpressionWithControls\<close> (both of
  signature\_scoring/models, not among the sources). Only the attribute \<^verbatim>\<open>hashable\<close> and the
  class of the object are read outside the R session; the rest of the object is \<open>content\<close>.
\<close>

datatype ('h, 'd) expression =
    Profile (hashable: 'h) (content: 'd)
  | ExpressionWithControls (hashable: 'h) (content: 'd)

text \<open>
  Lines 43 to 151 of \<^verbatim>\<open>gsva\<close> hand the expression to the R session (GSVA, and limma when
  not \<^verbatim>\<open>single_sample\<close>) and read the resulting table back. The R session is a parameter:
  a function from the request to the table, or to the exception that the session raises.
  Every request is recorded in the state, so that a call that computes nothing leaves the
  record unchanged.
\<close>

record ('h, 'd) gsva_request =
  req_expression :: "('h, 'd) expression"
  req_gene_sets :: string
  req_method :: string
  req_single_sample :: bool
  req_permutations :: "int option"
  req_mx_diff :: bool

datatype ('h, 'd) r_event = Gsva "('h, 'd) gsva_request" | Gc

type_synonym ('h, 'd) r_session = "('h, 'd) gsva_request \<Rightarrow> error + string DataFrame"

text \<open>
  The module state: the cache \<^verbatim>\<open>GSVA_CACHE\<close>, a dict keyed by
  \<^verbatim>\<open>(expression.hashable, method, gene_sets)\<close>, the counter \<^verbatim>\<open>process_specific_counter\<close>, and the
  record of what the R session was asked.
\<close>

record ('h, 'd) gsva_state =
  GSVA_CACHE :: "('h \<times> string \<times> string) \<rightharpoonup> string DataFrame"
  process_specific_counter :: nat
  r_events :: "('h, 'd) r_event list"

text \<open>
  \<^verbatim>\<open>gsva\<close>. The first statement is \<^verbatim>\<open>raise warn(...)\<close>: \<^verbatim>\<open>warn\<close> returns None, and raising None
  is a TypeError. It stands before the cache lookup.
\<close>

definition gsva ::
  "('h, 'd) r_session \<Rightarrow> ('h, 'd) expression \<Rightarrow> string \<Rightarrow> string \<Rightarrow> bool \<Rightarrow> int option \<Rightarrow> bool
     \<Rightarrow> bool \<Rightarrow> ('h, 'd) gsva_state \<Rightarrow> (error + string DataFrame) \<times> ('h, 'd) gsva_state" where
  "gsva R expression gene_sets gsva_method single_sample permutations mx_diff cache st =
     (if \<not> single_sample \<and> truthy_int permutations then (Inl TypeError, st)
      else
        (let key = (hashable expression, gsva_method, gene_sets) in
         case GSVA_CACHE st key of
           Some stored \<Rightarrow> (Inr stored, st)
         | None \<Rightarrow>
             if single_sample \<and> \<not> is_Profile expression then (Inl AssertionError, st)
             else
               (let request = \<lparr>req_expression = expression, req_gene_sets = gene_sets,
                                req_method = gsva_method, req_single_sample = single_sample,
                                req_permutations = permutations, req_mx_diff = mx_diff\<rparr>;
                    st1 = st\<lparr>r_events := r_events st @ [Gsva request]\<rparr>
                in case R request of
                     Inl e \<Rightarrow> (Inl e, st1)
                   | Inr result \<Rightarrow>
                       (let st2 = st1\<lparr>process_specific_counter :=
                                         process_specific_counter st1 + 1\<rparr>;
                            st3 = (if process_specific_counter st2 mod 20 = 0
                                   then st2\<lparr>r_events := r_events st2 @ [Gc]\<rparr> else st2);
                            st4 = (if cache
                                   then st3\<lparr>GSVA_CACHE := (GSVA_CACHE st3)(key \<mapsto> result)\<rparr>
                                   else st3)
                        in (Inr result, st4)))))"

text \<open>
  The configuration that \<^verbatim>\<open>create_gsva_scorer\<close> closes over, with its defaults, and what the
  scorer needs from outside this file: the R session, \<^verbatim>\<open>combine_gsea_results\<close>
  (scoring\_functions/gsea) and \<^verbatim>\<open>multiprocess_cache_manager\<close> (multiprocess/cache\_manager), none
  of them among the sources. \<open>respawn_cache_if_needed\<close> may replace the cache;
  \<open>shares_objects\<close> says whether the cache hands out the stored table itself, as a plain dict
  does, or a copy of it, as a proxy to a dict in another process does.
\<close>

record scorer_config =
  cfg_gene_sets :: string
  cfg_q_value_cutoff :: number
  cfg_na_action :: string
  cfg_gsva_method :: string
  cfg_single_sample :: bool
  cfg_permutations :: "int option"
  cfg_mx_diff :: bool

definition default_config :: scorer_config where
  "default_config =
     \<lparr>cfg_gene_sets = ''c2.cp.kegg'', cfg_q_value_cutoff = Num (1 / 10), cfg_na_action = ''fill_0'',
      cfg_gsva_method = ''gsva'', cfg_single_sample = False, cfg_permutations = None, cfg_mx_diff = True\<rparr>"

record ('h, 'd) scorer_env =
  r_session :: "('h, 'd) r_session"
  combine_gsea_results :: "string DataFrame \<Rightarrow> string DataFrame \<Rightarrow> string \<Rightarrow> error + string DataFrame"
  respawn_cache_if_needed ::
    "(('h \<times> string \<times> string) \<rightharpoonup> string DataFrame) \<Rightarrow> (('h \<times> string \<times> string) \<rightharpoonup> string DataFrame)"
  shares_objects :: bool

text \<open>
  The table operations of \<^verbatim>\<open>gsva_score\<close>. \<^verbatim>\<open>df[name]\<close> is the column with that label (result
  tables have distinct column labels); \<^verbatim>\<open>df[mask].index\<close> is the list of the labels of the rows
  where the mask holds; \<^verbatim>\<open>df.drop(labels)\<close> removes every row whose label is listed;
  \<^verbatim>\<open>Series.mean()\<close> averages the values that are not NaN and is NaN when there are none.
\<close>

definition labels_above :: "string DataFrame \<Rightarrow> number list \<Rightarrow> number \<Rightarrow> string list" where
  "labels_above df col cutoff = map fst (filter (\<lambda>(g, v). gt v cutoff) (zip (index df) col))"

definition drop_rows :: "'g list \<Rightarrow> 'g DataFrame \<Rightarrow> 'g DataFrame" where
  "drop_rows labels df =
     \<lparr>index = filter (\<lambda>g. g \<notin> set labels) (index df),
      series = map (\<lambda>(name, vs).
                  (name, map snd (filter (\<lambda>(g, v). g \<notin> set labels) (zip (index df) vs))))
                (series df)\<rparr>"

definition series_mean :: "number list \<Rightarrow> number" where
  "series_mean vs =
     (let xs = concat (map (\<lambda>v. case v of NaN \<Rightarrow> [] | Num x \<Rightarrow> [x]) vs)
      in if xs = [] then NaN else Num (sum_list xs / real (length xs)))"

text \<open>
  \<^verbatim>\<open>disease_gene_sets.drop(disease_gene_sets[disease_gene_sets['fdr_q-val'] > q_value_cutoff].index,
  inplace=True)\<close>, given the column \<^verbatim>\<open>fdr_q-val\<close>. The disease table is the object stored in the
  cache and it is changed in place; so with a cache that shares its objects the stored table
  is the filtered one afterwards.
\<close>

definition drop_insignificant :: "number \<Rightarrow> number list \<Rightarrow> string DataFrame \<Rightarrow> string DataFrame" where
  "drop_insignificant cutoff fdr disease_gene_sets =
     drop_rows (labels_above disease_gene_sets fdr cutoff) disease_gene_sets"

definition changed_in_place ::
  "('h, 'd) scorer_env \<Rightarrow> ('h \<times> string \<times> string) \<Rightarrow> string DataFrame \<Rightarrow> ('h, 'd) gsva_state
     \<Rightarrow> ('h, 'd) gsva_state" where
  "changed_in_place V key kept st =
     (if shares_objects V then st\<lparr>GSVA_CACHE := (GSVA_CACHE st)(key \<mapsto> kept)\<rparr> else st)"

text \<open>\<^verbatim>\<open>gsva_score\<close>, the function that \<^verbatim>\<open>create_gsva_scorer\<close> returns.\<close>

definition gsva_score ::
  "('h, 'd) scorer_env \<Rightarrow> scorer_config \<Rightarrow> ('h, 'd) expression \<Rightarrow> ('h, 'd) expression
     \<Rightarrow> ('h, 'd) gsva_state \<Rightarrow> (error + number) \<times> ('h, 'd) gsva_state" where
  "gsva_score V cfg disease compound st =
     (let st0 = st\<lparr>GSVA_CACHE := respawn_cache_if_needed V (GSVA_CACHE st)\<rparr> in
      case gsva (r_session V) disease (cfg_gene_sets cfg) (cfg_gsva_method cfg)
             (cfg_single_sample cfg) (cfg_permutations cfg) (cfg_mx_diff cfg) True st0 of
        (Inl e, st1) \<Rightarrow> (Inl e, st1)
      | (Inr disease_gene_sets, st1) \<Rightarrow>
          (case map_of (series disease_gene_sets) ''fdr_q-val'' of
             None \<Rightarrow> (Inl KeyError, st1)
           | Some fdr \<Rightarrow>
               (let kept = drop_insignificant (cfg_q_value_cutoff cfg) fdr disease_gene_sets;
                    st1' = changed_in_place V
                             (hashable disease, cfg_gsva_method cfg, cfg_gene_sets cfg) kept st1
                in case gsva (r_session V) compound (cfg_gene_sets cfg) (cfg_gsva_method cfg)
                          (cfg_single_sample cfg) (cfg_permutations cfg) (cfg_mx_diff cfg)
                          False st1' of
                     (Inl e, st2) \<Rightarrow> (Inl e, st2)
                   | (Inr signature_gene_sets, st2) \<Rightarrow>
                       (case combine_gsea_results V kept signature_gene_sets (cfg_na_action cfg) of
                          Inl e \<Rightarrow> (Inl e, st2)
                        | Inr joined \<Rightarrow>
                            (case map_of (series joined) ''score'' of
                               None \<Rightarrow> (Inl AttributeError, st2)
                             | Some score \<Rightarrow> (Inr (series_mean score), st2))))))"

section \<open>multi\_view/layers\<close>

subsection \<open>Layers\<close>

text \<open>
  The constructor of \<^verbatim>\<open>Layers\<close> changes the index of the caller's DataFrames and stores those
  very objects, so DataFrames live in a store: an address is a position in the list of all
  objects, a dict of DataFrames is an association list from keys to addresses in insertion
  order, \<^verbatim>\<open>deepcopy\<close> and row selection allocate a new object at the end of the store.
  \<open>mapper\<close> and the filter function are total functions on row labels.
\<close>

type_synonym 'g store = "'g DataFrame list"

type_synonym frames = "(string \<times> nat) list"

text \<open>\<^verbatim>\<open>d[k] = a\<close> on a dict: an existing key keeps its place.\<close>

fun dict_set :: "frames \<Rightarrow> string \<Rightarrow> nat \<Rightarrow> frames" where
  "dict_set [] k a = [(k, a)]"
| "dict_set ((k', a') # rest) k a =
     (if k' = k then (k', a) # rest else (k', a') # dict_set rest k a)"

text \<open>\<^verbatim>\<open>v[v.index.map(func)]\<close>: the rows whose label satisfies \<open>func\<close>.\<close>

definition select_rows :: "('g \<Rightarrow> bool) \<Rightarrow> 'g DataFrame \<Rightarrow> 'g DataFrame" where
  "select_rows func v =
     \<lparr>index = filter func (index v),
      series = map (\<lambda>(name, vs). (name, map snd (filter (\<lambda>(g, x). func g) (zip (index v) vs))))
                 (series v)\<rparr>"

text \<open>The first loop of \<^verbatim>\<open>__init__\<close>: \<^verbatim>\<open>self.layers[k] = deepcopy(v)\<close>.\<close>

fun copy_layers :: "frames \<Rightarrow> frames \<Rightarrow> 'g store \<Rightarrow> frames \<times> 'g store" where
  "copy_layers [] layers h = (layers, h)"
| "copy_layers ((k, a) # rest) layers h =
     copy_layers rest (dict_set layers k (length h)) (h @ [h ! a])"

text \<open>\<^verbatim>\<open>Layers.filter\<close>: a new dict with a new, filtered object for every key.\<close>

fun filter_layers :: "('g \<Rightarrow> bool) \<Rightarrow> frames \<Rightarrow> 'g store \<Rightarrow> frames \<times> 'g store" where
  "filter_layers func [] h = ([], h)"
| "filter_layers func ((k, a) # rest) h =
     (case filter_layers func rest (h @ [select_rows func (h ! a)]) of
        (layers, h') \<Rightarrow> ((k, length h) # layers, h'))"

text \<open>
  The second loop: \<^verbatim>\<open>v.index = v.index.map(mapper); self.layers[k] = v\<close>, on the caller's
  objects.
\<close>

definition map_index :: "('g \<Rightarrow> 'g) \<Rightarrow> 'g DataFrame \<Rightarrow> 'g DataFrame" where
  "map_index mapper v = v\<lparr>index := map mapper (index v)\<rparr>"

fun store_mapped :: "('g \<Rightarrow> 'g) \<Rightarrow> frames \<Rightarrow> frames \<Rightarrow> 'g store \<Rightarrow> frames \<times> 'g store" where
  "store_mapped mapper [] layers h = (layers, h)"
| "store_mapped mapper ((k, a) # rest) layers h =
     store_mapped mapper rest (dict_set layers k a) (h[a := map_index mapper (h ! a)])"

text \<open>\<^verbatim>\<open>Layers(data, mapper, filter)\<close>: the attribute \<^verbatim>\<open>layers\<close> of the new object, and the store.\<close>

definition Layers_init ::
  "frames \<Rightarrow> ('g \<Rightarrow> 'g) \<Rightarrow> ('g \<Rightarrow> bool) \<Rightarrow> 'g store \<Rightarrow> frames \<times> 'g store" where
  "Layers_init data mapper func h =
     (case copy_layers data [] h of
        (layers1, h1) \<Rightarrow>
          (case filter_layers func layers1 h1 of
             (layers2, h2) \<Rightarrow> store_mapped mapper data layers2 h2))"

subsection \<open>CodingMutationLayer\<close>

text \<open>
  \<^verbatim>\<open>ProteinSequences\<close> (bio/protein\_sequences) is not among the sources. The module global
  \<^verbatim>\<open>protein_sequences\<close> is None until a \<^verbatim>\<open>CodingMutationLayer\<close> has been constructed, and then
  an object whose method \<^verbatim>\<open>average_length\<close>, called with a protein name or with no argument,
  returns a length or raises. The floating point division of numpy is a parameter as well.
\<close>

record proteins =
  protein_sequences :: "(string option \<Rightarrow> error + number) option"
  true_divide :: "number \<Rightarrow> number \<Rightarrow> number"

text \<open>
  The inner function \<^verbatim>\<open>normalize\<close>, applied to one column. Only StatisticsError and KeyError
  are caught; \<^verbatim>\<open>column * nan\<close> is NaN in every row.
\<close>

definition normalize ::
  "proteins \<Rightarrow> bool \<Rightarrow> string \<times> number list \<Rightarrow> error + string \<times> number list" where
  "normalize P recover column =
     (case protein_sequences P of
        None \<Rightarrow> Inl AttributeError
      | Some average_length \<Rightarrow>
          (case average_length (Some (fst column)) of
             Inr protein_length \<Rightarrow>
               Inr (fst column, map (\<lambda>x. true_divide P x protein_length) (snd column))
           | Inl e \<Rightarrow>
               if e = StatisticsError \<or> e = KeyError then
                 (if recover then
                    (case average_length None of
                       Inr average \<Rightarrow>
                         Inr (fst column, map (\<lambda>x. true_divide P x average) (snd column))
                     | Inl e' \<Rightarrow> Inl e')
                  else Inr (fst column, map (\<lambda>x. NaN) (snd column)))
               else Inl e))"

text \<open>\<^verbatim>\<open>self.apply(f, axis='rows')\<close>: \<open>f\<close> on every column, in order; the first exception ends it.\<close>

fun apply_columns ::
  "(string \<times> number list \<Rightarrow> error + string \<times> number list) \<Rightarrow> (string \<times> number list) list
     \<Rightarrow> error + (string \<times> number list) list" where
  "apply_columns f [] = Inr []"
| "apply_columns f (c # cs) =
     (case f c of
        Inl e \<Rightarrow> Inl e
      | Inr c' \<Rightarrow> (case apply_columns f cs of Inl e \<Rightarrow> Inl e | Inr cs' \<Rightarrow> Inr (c' # cs')))"

text \<open>
  \<^verbatim>\<open>normalize_by_protein_length\<close>. The counter \<^verbatim>\<open>failed\<close> is read before any column has been
  normalized, so the warning is never issued and is left out.
\<close>

definition normalize_by_protein_length ::
  "proteins \<Rightarrow> bool \<Rightarrow> 'g DataFrame \<Rightarrow> error + 'g DataFrame" where
  "normalize_by_protein_length P recover df =
     (case apply_columns (normalize P recover) (series df) of
        Inl e \<Rightarrow> Inl e
      | Inr cs \<Rightarrow> Inr (df\<lparr>series := cs\<rparr>))"

section \<open>Auxiliary notions for the statements\<close>

text \<open>
  The invariant of the defaultdict built by \<^verbatim>\<open>samples_by_participant\<close>: one entry per
  participant seen so far, holding that participant's barcodes in column order.
\<close>

definition grouped :: "TCGABarcode list \<Rightarrow> (string \<times> TCGABarcode list) list \<Rightarrow> bool" where
  "grouped bs m \<longleftrightarrow>
     distinct (map fst m) \<and>
     (\<forall>p. map_of m p =
        (if p \<in> participant ` set bs then Some (filter (\<lambda>b. participant b = p) bs) else None))"

text \<open>
  \<open>has_sample E df p t\<close>: participant \<open>p\<close> has a column of sample type \<open>t\<close> in \<open>df\<close>.
  \<open>both_types\<close> is the test of \<^verbatim>\<open>paired\<close> on one participant's samples.
\<close>

definition has_sample :: "tcga \<Rightarrow> 'g DataFrame \<Rightarrow> string \<Rightarrow> string \<Rightarrow> bool" where
  "has_sample E df p t \<longleftrightarrow>
     (\<exists>n \<in> set (columns df). participant_of E n = p \<and> sample_type_of E n = t)"

definition both_types :: "string \<Rightarrow> string \<Rightarrow> TCGABarcode list \<Rightarrow> bool" where
  "both_types t1 t2 ps \<longleftrightarrow>
     (\<exists>b \<in> set ps. sample_type b = t1) \<and> (\<exists>b \<in> set ps. sample_type b = t2)"

text \<open>
  \<open>samples_of E df p t\<close>: the columns of participant \<open>p\<close> with sample type \<open>t\<close>, in column
  order. \<open>spread_block\<close> is what the \<^verbatim>\<open>spread\<close> branch of \<^verbatim>\<open>paired\<close> appends for one
  participant.
\<close>

definition samples_of :: "tcga \<Rightarrow> 'g DataFrame \<Rightarrow> string \<Rightarrow> string \<Rightarrow> (string \<times> number list) list" where
  "samples_of E df p t =
     filter (\<lambda>c. participant_of E (fst c) = p \<and> sample_type_of E (fst c) = t) (series df)"

definition spread_block :: "tcga \<Rightarrow> string \<Rightarrow> string \<Rightarrow> string \<Rightarrow> TCGABarcode list \<Rightarrow> TCGABarcode list" where
  "spread_block E t1 t2 s ps =
     (if both_types t1 t2 ps
      then (let cases = filter (\<lambda>b. sample_type b = (if s = t1 then t2 else t1)) ps
            in set_iter E cases @ replicate (length cases) (hd (filter (\<lambda>b. sample_type b = s) ps)))
      else [])"

text \<open>A small cohort used to instantiate the theorems.\<close>

definition example_tcga :: tcga where
  "example_tcga =
     \<lparr>participant_of = take 2, sample_type_of = drop 5,
      sample_type_ranges_values = [''tumor'', ''normal'', ''control''],
      set_iter = (\<lambda>xs. xs)\<rparr>"

definition example_expression :: "string DataFrame" where
  "example_expression =
     \<lparr>index = [''TP53'', ''BRCA1''],
      series = [(''P1-a-tumor'', [Num 5, Num 1]), (''P2-a-tumor'', [Num 2, Num 2]),
                (''P1-b-normal'', [Num 3, NaN]), (''P3-a-normal'', [Num 4, NaN]),
                (''P1-c-tumor'', [Num 7, Num 2])]\<rparr>"

text \<open>
  An expression table in which two columns carry the same label: participant P1 with two
  tumor columns of one barcode and one normal column.
\<close>

definition repeated_labels :: "string DataFrame" where
  "repeated_labels =
     \<lparr>index = [''TP53''],
      series = [(''P1-a-tumor'', [Num 5]), (''P1-a-tumor'', [Num 6]),
                (''P1-b-normal'', [Num 3])]\<rparr>"




text \<open>
  What the specification says of the disease table before it is combined: the rows whose
  \<^verbatim>\<open>fdr_q-val\<close> does not exceed the cutoff, chosen row by row from the value itself, with the
  values of every column in those rows.
\<close>

definition keep_significant :: "number \<Rightarrow> number list \<Rightarrow> string DataFrame \<Rightarrow> string DataFrame" where
  "keep_significant cutoff fdr d =
     \<lparr>index = map fst (filter (\<lambda>(g, x). \<not> gt x cutoff) (zip (index d) fdr)),
      series = map (\<lambda>(name, vs).
                  (name, map fst (filter (\<lambda>(v, x). \<not> gt x cutoff) (zip vs fdr))))
                 (series d)\<rparr>"

text \<open>
  A disease and a compound with the tables that a stand-in for the R session returns for
  them, a stand-in for \<^verbatim>\<open>combine_gsea_results\<close> that scores every kept gene set by its
  \<^verbatim>\<open>nes\<close>, and two module states, used to instantiate the theorems.
\<close>

definition example_disease :: "(nat, unit) expression" where
  "example_disease = ExpressionWithControls 1 ()"

definition example_profile :: "(nat, unit) expression" where
  "example_profile = Profile 1 ()"

definition example_compound :: "(nat, unit) expression" where
  "example_compound = ExpressionWithControls 2 ()"

definition example_disease_table :: "string DataFrame" where
  "example_disease_table =
     \<lparr>index = [''KEGG_A'', ''KEGG_B'', ''KEGG_C''],
      series = [(''nes'', [Num 1, Num 7, Num 4]),
                (''fdr_q-val'', [Num (1 / 20), Num (1 / 2), NaN])]\<rparr>"

definition example_compound_table :: "string DataFrame" where
  "example_compound_table =
     \<lparr>index = [''KEGG_A'', ''KEGG_C''],
      series = [(''nes'', [Num 3, Num 0]), (''fdr_q-val'', [Num (1 / 4), Num (1 / 5)])]\<rparr>"

definition example_session :: "(nat, unit) r_session" where
  "example_session request =
     Inr (if hashable (req_expression request) = 1 then example_disease_table
          else example_compound_table)"

definition example_env :: "(nat, unit) scorer_env" where
  "example_env =
     \<lparr>r_session = example_session,
      combine_gsea_results = (\<lambda>d c na.
         Inr \<lparr>index = index d @ index c,
              series = [(''score'', the (map_of (series d) ''nes'') @ the (map_of (series c) ''nes''))]\<rparr>),
      respawn_cache_if_needed = (\<lambda>cache. cache),
      shares_objects = True\<rparr>"

definition fresh_state :: "(nat, unit) gsva_state" where
  "fresh_state = \<lparr>GSVA_CACHE = Map.empty, process_specific_counter = 0, r_events = []\<rparr>"

definition cached_state :: "(nat, unit) gsva_state" where
  "cached_state =
     \<lparr>GSVA_CACHE = [(1, ''gsva'', ''c2.cp.kegg'') \<mapsto> example_disease_table],
      process_specific_counter = 1,
      r_events = [Gsva \<lparr>req_expression = example_disease, req_gene_sets = ''c2.cp.kegg'',
                        req_method = ''gsva'', req_single_sample = False,
                        req_permutations = None, req_mx_diff = True\<rparr>]\<rparr>"

text \<open>
  Two DataFrames in a store, a dict that lists one of them under two keys and a dict that
  lists both, and two filter functions, used to instantiate the theorems.
\<close>

definition example_layer :: "nat DataFrame" where
  "example_layer = \<lparr>index = [1, 2], series = [(''TP53'', [Num 1, Num 2])]\<rparr>"

definition other_layer :: "nat DataFrame" where
  "other_layer = \<lparr>index = [1, 5], series = [(''BRCA1'', [Num 0, NaN])]\<rparr>"

definition shared_data :: frames where
  "shared_data = [(''expression'', 0), (''mutation'', 0)]"

definition example_data :: frames where
  "example_data = [(''expression'', 0), (''mutation'', 1)]"

definition keep_all :: "nat \<Rightarrow> bool" where
  "keep_all x = True"

definition keep_none :: "nat \<Rightarrow> bool" where
  "keep_none x = False"

text \<open>
  What the specification says of one column in \<^verbatim>\<open>normalize_by_protein_length\<close>: divided by the
  protein's average length when the lookup gives one, and otherwise divided by the overall
  average when \<^verbatim>\<open>recover\<close> is set and replaced by NaN in every row when it is not. Then a
  protein table that knows one protein, and a mutation table, for the instances.
\<close>

definition normalized_column ::
  "proteins \<Rightarrow> (string option \<Rightarrow> error + number) \<Rightarrow> bool \<Rightarrow> number
     \<Rightarrow> string \<times> number list \<Rightarrow> string \<times> number list" where
  "normalized_column P average_length recover average column =
     (fst column,
      case average_length (Some (fst column)) of
        Inr protein_length \<Rightarrow> map (\<lambda>x. true_divide P x protein_length) (snd column)
      | Inl e \<Rightarrow>
          if recover then map (\<lambda>x. true_divide P x average) (snd column)
          else map (\<lambda>x. NaN) (snd column))"

definition example_proteins :: proteins where
  "example_proteins =
     \<lparr>protein_sequences = Some (\<lambda>name.
         if name = None then Inr (Num 4)
         else if name = Some ''TP53'' then Inr (Num 2)
         else Inl KeyError),
      true_divide = (\<lambda>x y. case (x, y) of (Num a, Num b) \<Rightarrow> Num (a / b) | _ \<Rightarrow> NaN)\<rparr>"

definition example_mutations :: "string DataFrame" where
  "example_mutations =
     \<lparr>index = [''P1'', ''P2''],
      series = [(''TP53'', [Num 4, Num 0]), (''UNKNOWN'', [Num 8, Num 2])]\<rparr>"

section \<open>Properties of the pairing of samples\<close>

lemma fst_in_keys: "(x, y) \<in> set m \<Longrightarrow> x \<in> fst ` set m"
  by force

lemma append_sample_keys:
  "map fst (append_sample m b) =
     (if participant b \<in> fst ` set m then map fst m else map fst m @ [participant b])"
proof (induction m)
  case Nil
  show ?case by simp
next
  case (Cons a m)
  obtain p ss where a: "a = (p, ss)" by (cases a)
  show ?case
  proof (cases "p = participant b")
    case True
    then show ?thesis by (simp add: a)
  next
    case False
    then show ?thesis using Cons by (simp add: a)
  qed
qed

lemma map_of_append_sample:
  "map_of (append_sample m b) =
     (map_of m)(participant b \<mapsto> (case map_of m (participant b) of None \<Rightarrow> [b] | Some ss \<Rightarrow> ss @ [b]))"
  by (induction m) (auto simp: fun_eq_iff)

lemma snd_by_keys: "distinct (map fst m) \<Longrightarrow> map snd m = map (\<lambda>p. the (map_of m p)) (map fst m)"
proof (induction m)
  case Nil
  show ?case by simp
next
  case (Cons a m)
  obtain p ss where a: "a = (p, ss)" by (cases a)
  from Cons.prems have "p \<notin> fst ` set m" and d: "distinct (map fst m)" by (auto simp: a)
  then have "map (\<lambda>q. the (map_of (a # m) q)) (map fst m) = map (\<lambda>q. the (map_of m q)) (map fst m)"
    by (auto simp: a)
  with Cons.IH [OF d] show ?case by (simp add: a)
qed

lemma filter_participant_empty:
  "p \<notin> participant ` set bs \<Longrightarrow> filter (\<lambda>x. participant x = p) bs = []"
  by (induction bs) auto

lemma grouped_append_sample:
  assumes "grouped bs m"
  shows "grouped (bs @ [b]) (append_sample m b)"
proof -
  from assms have d: "distinct (map fst m)"
    and e: "\<And>p. map_of m p =
        (if p \<in> participant ` set bs then Some (filter (\<lambda>b. participant b = p) bs) else None)"
    by (simp_all add: grouped_def)
  have "map_of m (participant b) = None \<longleftrightarrow> participant b \<notin> fst ` set m"
    by (rule map_of_eq_None_iff)
  then have k: "participant b \<in> fst ` set m \<longleftrightarrow> participant b \<in> participant ` set bs"
    using e [of "participant b"] by (cases "participant b \<in> participant ` set bs") simp_all
  have d': "distinct (map fst (append_sample m b))"
    using d by (simp add: append_sample_keys)
  have e': "map_of (append_sample m b) p =
        (if p \<in> participant ` set (bs @ [b])
         then Some (filter (\<lambda>x. participant x = p) (bs @ [b])) else None)" for p
    by (simp add: map_of_append_sample e filter_participant_empty)
  show ?thesis unfolding grouped_def using d' e' by blast
qed

lemma grouped_foldl: "grouped bs (foldl append_sample [] bs)"
proof (induction bs rule: rev_induct)
  case Nil
  show ?case by (simp add: grouped_def)
next
  case (snoc b bs)
  then show ?case by (simp add: grouped_append_sample)
qed


lemma by_type_valid:
  "t \<in> set (sample_type_ranges_values E) \<Longrightarrow>
     by_type E ps t = Inr (remdups (filter (\<lambda>b. sample_type b = t) ps))"
  by (simp add: by_type_def)

lemma paired_samples_plain:
  assumes "t1 \<in> set (sample_type_ranges_values E)" "t2 \<in> set (sample_type_ranges_values E)"
  shows "paired_samples E t1 t2 None None ps = Inr (if both_types t1 t2 ps then ps else [])"
  using assms
  by (auto simp: paired_samples_def by_type_valid filter_empty_conv both_types_def
      truthy_int_def truthy_str_def)

lemma paired_loop_plain:
  assumes "t1 \<in> set (sample_type_ranges_values E)" "t2 \<in> set (sample_type_ranges_values E)"
  shows "paired_loop E t1 t2 None None pss acc =
           Inr (acc @ concat (map (\<lambda>ps. if both_types t1 t2 ps then ps else []) pss))"
  by (induction pss arbitrary: acc) (simp_all add: paired_samples_plain [OF assms])

lemma mset_concat_by_keys:
  "distinct ks \<Longrightarrow>
     mset (concat (map (\<lambda>p. if Q p then filter (\<lambda>b. f b = p) bs else []) ks)) =
     mset (filter (\<lambda>b. f b \<in> set ks \<and> Q (f b)) bs)"
proof (induction ks)
  case Nil
  show ?case by simp
next
  case (Cons k ks)
  then have IH: "mset (concat (map (\<lambda>p. if Q p then filter (\<lambda>b. f b = p) bs else []) ks)) =
     mset (filter (\<lambda>b. f b \<in> set ks \<and> Q (f b)) bs)" and k: "k \<notin> set ks"
    by simp_all
  have "mset (filter (\<lambda>b. f b \<in> set (k # ks) \<and> Q (f b)) bs) =
        mset (if Q k then filter (\<lambda>b. f b = k) bs else []) + mset (filter (\<lambda>b. f b \<in> set ks \<and> Q (f b)) bs)"
    using k by (induction bs) auto
  with IH show ?case by simp
qed


lemma grouped_snd:
  assumes "grouped bs m"
  shows "map snd m = map (\<lambda>p. filter (\<lambda>b. participant b = p) bs) (map fst m)"
    and "participant ` set bs \<subseteq> set (map fst m)"
proof -
  from assms have d: "distinct (map fst m)"
    and e: "\<And>p. map_of m p =
        (if p \<in> participant ` set bs then Some (filter (\<lambda>b. participant b = p) bs) else None)"
    by (simp_all add: grouped_def)
  have key: "the (map_of m p) = filter (\<lambda>b. participant b = p) bs" if "p \<in> set (map fst m)" for p
  proof -
    from that have "map_of m p \<noteq> None" by (simp add: map_of_eq_None_iff)
    with e [of p] show ?thesis by (cases "p \<in> participant ` set bs") simp_all
  qed
  have "map snd m = map (\<lambda>p. the (map_of m p)) (map fst m)"
    using d by (rule snd_by_keys)
  also have "\<dots> = map (\<lambda>p. filter (\<lambda>b. participant b = p) bs) (map fst m)"
    using key by (intro map_cong) simp_all
  finally show "map snd m = map (\<lambda>p. filter (\<lambda>b. participant b = p) bs) (map fst m)" .
  show "participant ` set bs \<subseteq> set (map fst m)"
  proof
    fix p assume "p \<in> participant ` set bs"
    with e [of p] have "map_of m p \<noteq> None" by simp
    then show "p \<in> set (map fst m)" by (simp add: map_of_eq_None_iff)
  qed
qed

lemma chosen_plain:
  assumes "grouped bs m"
  shows "mset (concat (map (\<lambda>ps. if Q ps then ps else []) (map snd m))) =
         mset (filter (\<lambda>b. Q (filter (\<lambda>x. participant x = participant b) bs)) bs)"
proof -
  let ?g = "\<lambda>p. filter (\<lambda>b. participant b = p) bs"
  from assms have d: "distinct (map fst m)" by (simp add: grouped_def)
  have "concat (map (\<lambda>ps. if Q ps then ps else []) (map snd m)) =
        concat (map (\<lambda>p. if Q (?g p) then ?g p else []) (map fst m))"
    by (simp add: grouped_snd(1) [OF assms] comp_def)
  then have "mset (concat (map (\<lambda>ps. if Q ps then ps else []) (map snd m))) =
        mset (filter (\<lambda>b. participant b \<in> set (map fst m) \<and> Q (?g (participant b))) bs)"
    using mset_concat_by_keys [OF d, of "\<lambda>p. Q (?g p)" participant bs] by simp
  also have "filter (\<lambda>b. participant b \<in> set (map fst m) \<and> Q (?g (participant b))) bs =
        filter (\<lambda>b. Q (?g (participant b))) bs"
    using grouped_snd(2) [OF assms] by (intro filter_cong) auto
  finally show ?thesis .
qed

lemma filter_unique_label:
  "distinct (map fst cs) \<Longrightarrow> c \<in> set cs \<Longrightarrow> filter (\<lambda>c'. fst c' = fst c) cs = [c]"
proof (induction cs)
  case Nil
  then show ?case by simp
next
  case (Cons a cs)
  show ?case
  proof (cases "a = c")
    case True
    with Cons.prems have "fst c \<notin> fst ` set cs" by simp
    then have "filter (\<lambda>c'. fst c' = fst c) cs = []"
      by (induction cs) auto
    with True show ?thesis by simp
  next
    case False
    with Cons.prems have "c \<in> set cs" "fst a \<noteq> fst c" by force+
    with Cons show ?thesis by simp
  qed
qed

lemma select_by_labels:
  assumes "distinct (map fst cs)"
  shows "concat (map (\<lambda>n. filter (\<lambda>c. fst c = n) cs) (map fst (filter P cs))) = filter P cs"
proof -
  have "map (\<lambda>c. filter (\<lambda>c'. fst c' = fst c) cs) (filter P cs) = map (\<lambda>c. [c]) (filter P cs)"
    by (rule map_cong) (simp_all add: filter_unique_label [OF assms])
  then have "concat (map (\<lambda>c. filter (\<lambda>c'. fst c' = fst c) cs) (filter P cs)) =
             concat (map (\<lambda>c. [c]) (filter P cs))"
    by (rule arg_cong)
  then have "concat (map (\<lambda>c. filter (\<lambda>c'. fst c' = fst c) cs) (filter P cs)) = filter P cs"
    by simp
  then show ?thesis by (simp add: comp_def)
qed


lemma mset_concat_map_cong:
  assumes "mset xs = mset ys"
  shows "mset (concat (map f xs)) = mset (concat (map f ys))"
proof -
  have "mset (concat (map f zs)) = sum_mset (image_mset (\<lambda>z. mset (f z)) (mset zs))" for zs
    by (induction zs) simp_all
  with assms show ?thesis by simp
qed

lemma getitem_mset:
  assumes "distinct (columns df)" and "mset names = mset (filter P (columns df))"
  shows "\<exists>r. getitem df names = Inr r \<and> index r = index df \<and>
           mset (series r) = mset (filter (\<lambda>c. P (fst c)) (series df))"
proof -
  let ?sel = "\<lambda>n. filter (\<lambda>c. fst c = n) (series df)"
  from assms(2) have "set names = set (filter P (columns df))"
    by (rule mset_eq_setD)
  then have ok: "\<not> (\<exists>n \<in> set names. n \<notin> set (columns df))" by auto
  have "filter P (columns df) = map fst (filter (\<lambda>c. P (fst c)) (series df))"
    by (simp add: columns_def filter_map comp_def)
  with assms(2) have "mset (concat (map ?sel names)) =
        mset (concat (map ?sel (map fst (filter (\<lambda>c. P (fst c)) (series df)))))"
    using mset_concat_map_cong [of names "filter P (columns df)" ?sel] by simp
  also have "\<dots> = mset (filter (\<lambda>c. P (fst c)) (series df))"
    using assms(1) by (simp only: select_by_labels columns_def)
  finally show ?thesis using ok by (simp add: getitem_def)
qed

lemma barcode_mk_barcode: "map barcode (filter Q (map (mk_barcode E) ns)) = filter (\<lambda>n. Q (mk_barcode E n)) ns"
  by (induction ns) (simp_all add: mk_barcode_def)

lemma both_types_has_sample:
  "both_types t1 t2 (filter (\<lambda>x. participant x = p) (barcodes E df)) \<longleftrightarrow>
     has_sample E df p t1 \<and> has_sample E df p t2"
  by (auto simp: both_types_def has_sample_def barcodes_def mk_barcode_def)

lemma paired_plain_labels:
  assumes "type_one \<in> set (sample_type_ranges_values E)"
    and "type_two \<in> set (sample_type_ranges_values E)"
  shows "\<exists>names. paired E df type_one type_two None None = getitem df names \<and>
           mset names =
             mset (filter (\<lambda>n. has_sample E df (participant_of E n) type_one \<and>
                                has_sample E df (participant_of E n) type_two) (columns df))"
proof -
  let ?bs = "barcodes E df"
  let ?m = "samples_by_participant E df"
  let ?chosen = "concat (map (\<lambda>ps. if both_types type_one type_two ps then ps else []) (map snd ?m))"
  let ?P = "\<lambda>n. has_sample E df (participant_of E n) type_one \<and>
                 has_sample E df (participant_of E n) type_two"
  have g: "grouped ?bs ?m"
    unfolding samples_by_participant_def by (rule grouped_foldl)
  have loop: "paired_loop E type_one type_two None None (map snd ?m) [] = Inr ?chosen"
    by (simp add: paired_loop_plain [OF assms(1,2)])
  have "mset ?chosen =
        mset (filter (\<lambda>b. both_types type_one type_two (filter (\<lambda>x. participant x = participant b) ?bs)) ?bs)"
    using g by (rule chosen_plain)
  also have "filter (\<lambda>b. both_types type_one type_two (filter (\<lambda>x. participant x = participant b) ?bs)) ?bs =
        filter (\<lambda>b. ?P (barcode b)) ?bs"
  proof (rule filter_cong [OF refl])
    fix b assume "b \<in> set ?bs"
    then have "participant_of E (barcode b) = participant b"
      by (auto simp: barcodes_def mk_barcode_def)
    then show "both_types type_one type_two (filter (\<lambda>x. participant x = participant b) ?bs) =
        ?P (barcode b)"
      by (simp add: both_types_has_sample)
  qed
  finally have "mset ?chosen = mset (filter (\<lambda>b. ?P (barcode b)) ?bs)" .
  then have "mset (map barcode ?chosen) = mset (map barcode (filter (\<lambda>b. ?P (barcode b)) ?bs))"
    by simp
  also have "map barcode (filter (\<lambda>b. ?P (barcode b)) ?bs) = filter ?P (columns df)"
    by (simp add: barcodes_def barcode_mk_barcode mk_barcode_def)
  finally have names: "mset (map barcode ?chosen) = mset (filter ?P (columns df))" .
  have "paired E df type_one type_two None None = getitem df (map barcode ?chosen)"
    using loop by (simp add: paired_def truthy_str_def)
  with names show ?thesis by blast
qed

lemma columns_of_class_eq:
  "columns_of_class E df t = filter (\<lambda>n. sample_type_of E n = t) (columns df)"
proof -
  have "map fst (filter (\<lambda>(name, cls). cls = t) (zip ns (map (\<lambda>n. sample_type_of E n) ns))) =
        filter (\<lambda>n. sample_type_of E n = t) ns" for ns
    by (induction ns) simp_all
  then show ?thesis
    by (simp add: columns_of_class_def classes_def barcodes_def mk_barcode_def comp_def)
qed

lemma getitem_filter:
  assumes "distinct (columns df)"
  shows "getitem df (filter P (columns df)) = Inr (df\<lparr>series := filter (\<lambda>c. P (fst c)) (series df)\<rparr>)"
proof -
  have "filter P (columns df) = map fst (filter (\<lambda>c. P (fst c)) (series df))"
    by (simp add: columns_def filter_map comp_def)
  then show ?thesis
    using select_by_labels [of "series df" "\<lambda>c. P (fst c)"] assms
    by (simp add: getitem_def columns_def)
qed

lemma distinct_columns_mset:
  assumes "distinct (columns df)" and "mset (series p) = mset (filter Q (series df))"
  shows "distinct (columns p)"
proof -
  from assms(2) have "mset (map fst (series p)) = mset (map fst (filter Q (series df)))"
    by simp
  moreover have "distinct (map fst (filter Q (series df)))"
    using assms(1) by (simp add: columns_def distinct_map_filter)
  ultimately show ?thesis
    unfolding columns_def by (metis mset_eq_imp_distinct_iff)
qed

lemma distinct_barcodes: "distinct (columns df) \<Longrightarrow> distinct (barcodes E df)"
  unfolding barcodes_def
  by (rule iffD2 [OF distinct_map]) (auto simp: inj_on_def mk_barcode_def)

lemma set_iter_single:
  assumes "\<forall>xs. distinct xs \<longrightarrow> mset (set_iter E xs) = mset xs"
  shows "set_iter E [c] = [c]"
proof -
  from assms have "mset (set_iter E [c]) = mset [c]" by simp
  then show ?thesis by (metis mset_single_iff_right mset.simps(1) mset.simps(2) add_mset_eq_single mset_zero_iff list.exhaust)
qed

lemma paired_samples_spread:
  assumes t1: "t1 \<in> set (sample_type_ranges_values E)"
    and t2: "t2 \<in> set (sample_type_ranges_values E)"
    and s: "s \<noteq> []" "s = t1 \<or> s = t2"
    and iter: "\<forall>xs. distinct xs \<longrightarrow> mset (set_iter E xs) = mset xs"
    and d: "distinct ps"
    and one: "both_types t1 t2 ps \<Longrightarrow> length (filter (\<lambda>b. sample_type b = s) ps) = 1"
  shows "paired_samples E t1 t2 None (Some s) ps = Inr (spread_block E t1 t2 s ps)"
proof (cases "both_types t1 t2 ps")
  case False
  then show ?thesis
    using t1 t2
    by (auto simp: paired_samples_def by_type_valid filter_empty_conv both_types_def
        spread_block_def)
next
  case True
  let ?o = "if s = t1 then t2 else t1"
  have ns: "hd (remove1 s [t1, t2]) = ?o" using s(2) by auto
  have o: "?o \<in> set (sample_type_ranges_values E)" and sv: "s \<in> set (sample_type_ranges_values E)"
    using t1 t2 s(2) by auto
  have rd: "remdups (filter P ps) = filter P ps" for P
    using d by (simp add: distinct_remdups_id)
  from one [OF True] obtain c where c: "filter (\<lambda>b. sample_type b = s) ps = [c]"
    by (cases "filter (\<lambda>b. sample_type b = s) ps") auto
  have ne: "filter (\<lambda>b. sample_type b = t1) ps \<noteq> []" "filter (\<lambda>b. sample_type b = t2) ps \<noteq> []"
    using True by (auto simp: both_types_def filter_empty_conv)
  show ?thesis
    using True ne s
    by (simp add: paired_samples_def by_type_valid [OF t1] by_type_valid [OF t2]
        by_type_valid [OF o] by_type_valid [OF sv] rd ns c set_iter_single [OF iter]
        truthy_int_def truthy_str_def spread_block_def Let_def
        del: remove1.simps)
qed


lemma paired_loop_blocks:
  assumes "\<forall>ps \<in> set pss. paired_samples E t1 t2 l s ps = Inr (g ps)"
  shows "paired_loop E t1 t2 l s pss acc = Inr (acc @ concat (map g pss))"
  using assms by (induction pss arbitrary: acc) simp_all

lemma getitem_labels:
  assumes "distinct (columns df)" and "set names \<subseteq> set (columns df)"
  shows "getitem df names =
           Inr (df\<lparr>series := map (\<lambda>n. (n, the (map_of (series df) n))) names\<rparr>)"
proof -
  have "filter (\<lambda>c. fst c = n) (series df) = [(n, the (map_of (series df) n))]"
    if "n \<in> set names" for n
  proof -
    from that assms(2) obtain c where c: "c \<in> set (series df)" "fst c = n"
      by (auto simp: columns_def)
    have "(n, snd c) = c" using c(2) by (simp add: prod_eq_iff)
    with c(1) have "(n, snd c) \<in> set (series df)" by simp
    then have "map_of (series df) n = Some (snd c)"
      using assms(1) by (simp add: columns_def map_of_eq_Some_iff)
    with filter_unique_label [of "series df" c] c assms(1) show ?thesis
      by (simp add: columns_def prod_eq_iff)
  qed
  then have "map (\<lambda>n. filter (\<lambda>c. fst c = n) (series df)) names =
             map (\<lambda>n. [(n, the (map_of (series df) n))]) names"
    by (intro map_cong) simp_all
  then have "concat (map (\<lambda>n. filter (\<lambda>c. fst c = n) (series df)) names) =
             concat (map (\<lambda>n. [(n, the (map_of (series df) n))]) names)"
    by (rule arg_cong)
  then show ?thesis using assms(2) by (auto simp: getitem_def)
qed

lemma concat_map_filter_blocks:
  "(\<And>x. x \<in> set xs \<Longrightarrow> \<not> Q x \<Longrightarrow> f x = []) \<Longrightarrow>
     concat (map f xs) = concat (map f (filter Q xs))"
  by (induction xs) auto


lemma column_of_label:
  assumes "distinct (columns df)" and "c \<in> set (series df)"
  shows "(fst c, the (map_of (series df) (fst c))) = c"
proof -
  have "(fst c, snd c) \<in> set (series df)" using assms(2) by simp
  then have "map_of (series df) (fst c) = Some (snd c)"
    using assms(1) by (simp add: columns_def map_of_eq_Some_iff)
  then show ?thesis by (simp add: prod_eq_iff)
qed

lemma columns_of_samples:
  assumes "distinct (columns df)"
  shows "map (\<lambda>b. (barcode b, the (map_of (series df) (barcode b))))
           (filter (\<lambda>b. sample_type b = t) (filter (\<lambda>b. participant b = p) (barcodes E df))) =
         samples_of E df p t"
proof -
  let ?col = "\<lambda>n. (n, the (map_of (series df) n))"
  have "map (\<lambda>b. ?col (barcode b))
           (filter (\<lambda>b. sample_type b = t) (filter (\<lambda>b. participant b = p) (barcodes E df))) =
        map (\<lambda>c. ?col (fst c)) (samples_of E df p t)"
    by (simp add: barcodes_def columns_def filter_map comp_def mk_barcode_def samples_of_def
        conj_commute)
  also have "\<dots> = map (\<lambda>c. c) (samples_of E df p t)"
    by (rule map_cong) (simp_all add: column_of_label [OF assms] samples_of_def)
  finally show ?thesis by simp
qed


lemma spread_block_columns:
  assumes d: "distinct (columns df)"
    and iter: "\<forall>xs. distinct xs \<longrightarrow> mset (set_iter E xs) = mset xs"
    and both: "both_types t1 t2 (filter (\<lambda>b. participant b = p) (barcodes E df))"
    and one: "length (samples_of E df p s) = 1"
  shows "\<exists>xs c. map (\<lambda>b. (barcode b, the (map_of (series df) (barcode b))))
                  (spread_block E t1 t2 s (filter (\<lambda>b. participant b = p) (barcodes E df))) =
                xs @ replicate (length xs) c \<and>
           mset xs = mset (samples_of E df p (if s = t1 then t2 else t1)) \<and>
           c \<in> set (samples_of E df p s)"
proof -
  define cb where "cb = (\<lambda>b::TCGABarcode. (barcode b, the (map_of (series df) (barcode b))))"
  define F where "F = filter (\<lambda>b. participant b = p) (barcodes E df)"
  define other where "other = (if s = t1 then t2 else t1)"
  define cases where "cases = filter (\<lambda>b. sample_type b = other) F"
  define controls where "controls = filter (\<lambda>b. sample_type b = s) F"
  have dc: "distinct cases"
    using distinct_barcodes [OF d, of E] by (simp add: cases_def F_def)
  with iter have perm: "mset (set_iter E cases) = mset cases" by blast
  then have len: "length (set_iter E cases) = length cases"
    by (rule mset_eq_length)
  have mc: "map cb controls = samples_of E df p s"
    unfolding cb_def controls_def F_def using d by (rule columns_of_samples)
  then have "length (map cb controls) = length (samples_of E df p s)"
    by (rule arg_cong)
  with one have "length controls = Suc 0" by (simp only: length_map One_nat_def)
  then obtain c0 where c0: "controls = [c0]"
    by (metis length_0_conv length_Suc_conv)
  from mc have "samples_of E df p s = [cb c0]"
    by (simp add: c0)
  then have c: "cb c0 \<in> set (samples_of E df p s)"
    by simp
  have "map cb cases = samples_of E df p other"
    unfolding cb_def cases_def F_def using d by (rule columns_of_samples)
  then have "mset (samples_of E df p other) = image_mset cb (mset cases)"
    by (simp only: mset_map [symmetric])
  with perm have xs: "mset (map cb (set_iter E cases)) = mset (samples_of E df p other)"
    by (simp only: mset_map)
  have "spread_block E t1 t2 s F = set_iter E cases @ replicate (length cases) (hd controls)"
    using both unfolding spread_block_def cases_def controls_def other_def F_def
    by (simp only: if_True Let_def)
  then have "map cb (spread_block E t1 t2 s F) =
        map cb (set_iter E cases) @ replicate (length (map cb (set_iter E cases))) (cb c0)"
    using len by (simp add: c0)
  with xs c show ?thesis unfolding cb_def F_def other_def by blast
qed


lemma spread_block_subset:
  assumes iter: "\<forall>xs. distinct xs \<longrightarrow> mset (set_iter E xs) = mset xs"
    and d: "distinct ps"
    and one: "both_types t1 t2 ps \<Longrightarrow> length (filter (\<lambda>b. sample_type b = s) ps) = 1"
  shows "set (spread_block E t1 t2 s ps) \<subseteq> set ps"
proof (cases "both_types t1 t2 ps")
  case False
  then show ?thesis by (simp add: spread_block_def)
next
  case True
  define cases where "cases = filter (\<lambda>b. sample_type b = (if s = t1 then t2 else t1)) ps"
  define controls where "controls = filter (\<lambda>b. sample_type b = s) ps"
  have "distinct cases" using d by (simp add: cases_def)
  with iter have "mset (set_iter E cases) = mset cases" by blast
  then have "set (set_iter E cases) = set cases" by (rule mset_eq_setD)
  then have a: "set (set_iter E cases) \<subseteq> set ps" by (auto simp: cases_def)
  from one [OF True] have "controls \<noteq> []" by (auto simp: controls_def)
  then have "hd controls \<in> set controls" by simp
  then have b: "hd controls \<in> set ps" by (simp add: controls_def)
  have "spread_block E t1 t2 s ps = set_iter E cases @ replicate (length cases) (hd controls)"
    using True unfolding spread_block_def cases_def controls_def
    by (simp only: if_True Let_def)
  with a b show ?thesis by auto
qed

lemma getitem_set:
  assumes "set names \<subseteq> set (columns df)"
  shows "\<exists>r. getitem df names = Inr r \<and> index r = index df \<and>
           set (series r) = {c \<in> set (series df). fst c \<in> set names}"
  using assms by (auto simp: getitem_def)

lemma example_paired:
  "paired example_tcga example_expression ''tumor'' ''normal'' None None =
     Inr \<lparr>index = [''TP53'', ''BRCA1''],
          series = [(''P1-a-tumor'', [Num 5, Num 1]), (''P1-b-normal'', [Num 3, NaN]),
                    (''P1-c-tumor'', [Num 7, Num 2])]\<rparr>"
  by (simp add: paired_def samples_by_participant_def barcodes_def columns_def mk_barcode_def
      example_tcga_def example_expression_def paired_samples_def by_type_def getitem_def
      truthy_int_def truthy_str_def)

lemma example_paired_spread:
  "paired example_tcga example_expression ''tumor'' ''normal'' None (Some ''normal'') =
     Inr \<lparr>index = [''TP53'', ''BRCA1''],
          series = [(''P1-a-tumor'', [Num 5, Num 1]), (''P1-c-tumor'', [Num 7, Num 2]),
                    (''P1-b-normal'', [Num 3, NaN]), (''P1-b-normal'', [Num 3, NaN])]\<rparr>"
  by (simp add: paired_def samples_by_participant_def barcodes_def columns_def mk_barcode_def
      example_tcga_def example_expression_def paired_samples_def by_type_def getitem_def
      truthy_int_def truthy_str_def Let_def)

section \<open>The claims about the ExpressionManager\<close>

text \<open>
  Claim C1. For two sample types of \<^verbatim>\<open>sample_type_ranges\<close>, \<^verbatim>\<open>paired\<close> called without
  \<^verbatim>\<open>limit_to\<close> and without \<^verbatim>\<open>spread\<close> returns the columns of exactly the participants that
  have a sample of \<open>type_one\<close> and a sample of \<open>type_two\<close>: all columns of such a participant,
  of whatever sample type, and no column of any other participant; the rows are unchanged.
  When the column labels are distinct, each of these columns is returned exactly once.
\<close>

theorem paired_both_types:
  assumes "type_one \<in> set (sample_type_ranges_values E)"
    and "type_two \<in> set (sample_type_ranges_values E)"
  shows "\<exists>r. paired E df type_one type_two None None = Inr r \<and> index r = index df \<and>
           set (series r) =
             {c \<in> set (series df). has_sample E df (participant_of E (fst c)) type_one \<and>
                                    has_sample E df (participant_of E (fst c)) type_two} \<and>
           (distinct (columns df) \<longrightarrow>
              mset (series r) =
                mset (filter (\<lambda>c. has_sample E df (participant_of E (fst c)) type_one \<and>
                                   has_sample E df (participant_of E (fst c)) type_two) (series df)))"
proof -
  let ?P = "\<lambda>n. has_sample E df (participant_of E n) type_one \<and>
                 has_sample E df (participant_of E n) type_two"
  from paired_plain_labels [OF assms(1,2)] obtain names
    where p: "paired E df type_one type_two None None = getitem df names"
      and names: "mset names = mset (filter ?P (columns df))"
    by blast
  from names have sn: "set names = set (filter ?P (columns df))"
    by (rule mset_eq_setD)
  then have "set names \<subseteq> set (columns df)" by auto
  from getitem_set [OF this] obtain r
    where r: "getitem df names = Inr r" "index r = index df"
      and s: "set (series r) = {c \<in> set (series df). fst c \<in> set names}"
    by blast
  have "set (series r) = {c \<in> set (series df). ?P (fst c)}"
    unfolding s sn by (auto simp: columns_def)
  moreover have "mset (series r) = mset (filter (\<lambda>c. ?P (fst c)) (series df))"
    if "distinct (columns df)"
    using getitem_mset [OF that names] r by simp
  ultimately show ?thesis using p r by simp
qed

theorem paired_both_types_witness:
  "''tumor'' \<in> set (sample_type_ranges_values example_tcga) \<and>
   ''normal'' \<in> set (sample_type_ranges_values example_tcga) \<and>
   distinct (columns example_expression) \<and>
   (\<exists>r. paired example_tcga example_expression ''tumor'' ''normal'' None None = Inr r \<and>
        index r = index example_expression \<and>
        set (series r) = {(''P1-a-tumor'', [Num 5, Num 1]), (''P1-b-normal'', [Num 3, NaN]),
                          (''P1-c-tumor'', [Num 7, Num 2])} \<and>
        mset (series r) = {#(''P1-a-tumor'', [Num 5, Num 1]), (''P1-b-normal'', [Num 3, NaN]),
                            (''P1-c-tumor'', [Num 7, Num 2])#})"
proof -
  have h1: "''tumor'' \<in> set (sample_type_ranges_values example_tcga)"
    and h2: "''normal'' \<in> set (sample_type_ranges_values example_tcga)"
    by (simp_all add: example_tcga_def)
  have h3: "distinct (columns example_expression)"
    by (simp add: example_expression_def columns_def)
  have f: "filter (\<lambda>c. has_sample example_tcga example_expression
                        (participant_of example_tcga (fst c)) ''tumor'' \<and>
                     has_sample example_tcga example_expression
                        (participant_of example_tcga (fst c)) ''normal'')
               (series example_expression) =
        [(''P1-a-tumor'', [Num 5, Num 1]), (''P1-b-normal'', [Num 3, NaN]),
         (''P1-c-tumor'', [Num 7, Num 2])]"
    by (simp add: has_sample_def example_tcga_def example_expression_def columns_def)
  from paired_both_types [OF h1 h2] h3 obtain r
    where r: "paired example_tcga example_expression ''tumor'' ''normal'' None None = Inr r"
        "index r = index example_expression"
      and m: "mset (series r) =
        mset (filter (\<lambda>c. has_sample example_tcga example_expression
                        (participant_of example_tcga (fst c)) ''tumor'' \<and>
                     has_sample example_tcga example_expression
                        (participant_of example_tcga (fst c)) ''normal'')
               (series example_expression))"
    by blast
  from m have m': "mset (series r) = mset [(''P1-a-tumor'', [Num 5, Num 1]),
      (''P1-b-normal'', [Num 3, NaN]), (''P1-c-tumor'', [Num 7, Num 2])]"
    by (simp only: f)
  then have "set (series r) = set [(''P1-a-tumor'', [Num 5, Num 1]),
      (''P1-b-normal'', [Num 3, NaN]), (''P1-c-tumor'', [Num 7, Num 2])]"
    by (rule mset_eq_setD)
  with m' r h1 h2 h3 show ?thesis by auto
qed

text \<open>
  Claim C7, as stated, fails for a table in which two columns carry the same label. In
  \<open>repeated_labels\<close> the only participant has samples of both types and exactly one normal
  sample, yet \<^verbatim>\<open>paired('tumor', 'normal', spread='normal')\<close> returns two tumor columns and one
  normal column: the set of the participant's tumor barcodes has one element, the normal
  barcode is appended once, and the selection by label then returns both columns of the
  tumor barcode.
\<close>

theorem paired_spread_repeated_labels:
  "map (participant_of example_tcga) (columns repeated_labels) = [''P1'', ''P1'', ''P1''] \<and>
   has_sample example_tcga repeated_labels ''P1'' ''tumor'' \<and>
   has_sample example_tcga repeated_labels ''P1'' ''normal'' \<and>
   length (samples_of example_tcga repeated_labels ''P1'' ''normal'') = 1 \<and>
   paired example_tcga repeated_labels ''tumor'' ''normal'' None (Some ''normal'') =
     Inr \<lparr>index = [''TP53''],
          series = [(''P1-a-tumor'', [Num 5]), (''P1-a-tumor'', [Num 6]),
                    (''P1-b-normal'', [Num 3])]\<rparr>"
  by (simp add: paired_def samples_by_participant_def barcodes_def columns_def mk_barcode_def
      example_tcga_def repeated_labels_def paired_samples_def by_type_def getitem_def
      truthy_int_def truthy_str_def Let_def has_sample_def samples_of_def)

text \<open>
  Claim C7, amended. Let the column labels be distinct, let \<open>s\<close> be one of the two sample
  types, and let every participant that has samples of both types have exactly one sample of
  type \<open>s\<close>. Then \<^verbatim>\<open>paired(type_one, type_two, spread=s)\<close> returns one block of columns per such
  participant: all the participant's samples of the other type (each once, in the order in
  which the interpreter iterates over the set), followed by the single sample of type \<open>s\<close>
  repeated once per sample of the other type. So the block holds as many copies of the spread
  sample as samples of the other type.
\<close>

theorem paired_spread:
  assumes t1: "type_one \<in> set (sample_type_ranges_values E)"
    and t2: "type_two \<in> set (sample_type_ranges_values E)"
    and s: "s \<noteq> []" "s = type_one \<or> s = type_two"
    and d: "distinct (columns df)"
    and iter: "\<forall>xs. distinct xs \<longrightarrow> mset (set_iter E xs) = mset xs"
    and one: "\<forall>n \<in> set (columns df).
                has_sample E df (participant_of E n) type_one \<and>
                has_sample E df (participant_of E n) type_two \<longrightarrow>
                length (samples_of E df (participant_of E n) s) = 1"
  shows "\<exists>r ps blk.
           paired E df type_one type_two None (Some s) = Inr r \<and> index r = index df \<and>
           series r = concat (map blk ps) \<and> distinct ps \<and>
           set ps = {p. has_sample E df p type_one \<and> has_sample E df p type_two} \<and>
           (\<forall>p \<in> set ps. \<exists>xs c.
              blk p = xs @ replicate (length xs) c \<and>
              mset xs = mset (samples_of E df p (if s = type_one then type_two else type_one)) \<and>
              c \<in> set (samples_of E df p s))"
proof -
  define bs where "bs = barcodes E df"
  define m where "m = samples_by_participant E df"
  define F where "F = (\<lambda>p. filter (\<lambda>b. participant b = p) bs)"
  define cb where "cb = (\<lambda>b::TCGABarcode. (barcode b, the (map_of (series df) (barcode b))))"
  define Q where "Q = (\<lambda>p. both_types type_one type_two (F p))"
  define blk where "blk = (\<lambda>p. map cb (spread_block E type_one type_two s (F p)))"
  have g: "grouped bs m"
    unfolding samples_by_participant_def m_def bs_def by (rule grouped_foldl)
  then have dk: "distinct (map fst m)" by (simp add: grouped_def)
  have snd_m: "map snd m = map F (map fst m)"
    unfolding F_def using g by (rule grouped_snd(1))
  have keys: "participant ` set bs \<subseteq> set (map fst m)"
    using g by (rule grouped_snd(2))
  have Q_iff: "Q p \<longleftrightarrow> has_sample E df p type_one \<and> has_sample E df p type_two" for p
    unfolding Q_def F_def bs_def by (rule both_types_has_sample)
  have dF: "distinct (F p)" for p
    using distinct_barcodes [OF d, of E] by (simp add: F_def bs_def)
  have one_F: "length (filter (\<lambda>b. sample_type b = s) (F p)) = 1" if "Q p" for p
  proof -
    from that have h: "has_sample E df p type_one \<and> has_sample E df p type_two"
      by (simp add: Q_iff)
    then obtain n where "n \<in> set (columns df)" "participant_of E n = p"
      by (auto simp: has_sample_def)
    with one h have "length (samples_of E df p s) = 1" by blast
    moreover have "map cb (filter (\<lambda>b. sample_type b = s) (F p)) = samples_of E df p s"
      unfolding cb_def F_def bs_def using d by (rule columns_of_samples)
    ultimately show ?thesis by (metis length_map)
  qed
  have step: "paired_samples E type_one type_two None (Some s) (F p) =
                Inr (spread_block E type_one type_two s (F p))" for p
    using t1 t2 s iter dF one_F [unfolded Q_def] by (rule paired_samples_spread)
  have "\<forall>ps \<in> set (map snd m). paired_samples E type_one type_two None (Some s) ps =
                Inr (spread_block E type_one type_two s ps)"
    using step by (auto simp: snd_m)
  then have loop: "paired_loop E type_one type_two None (Some s) (map snd m) [] =
      Inr (concat (map (spread_block E type_one type_two s) (map snd m)))"
    using paired_loop_blocks [of "map snd m" E type_one type_two None "Some s"
        "spread_block E type_one type_two s" "[]"] by simp
  define chosen where "chosen = concat (map (spread_block E type_one type_two s) (map snd m))"
  have sub_F: "set (spread_block E type_one type_two s (F p)) \<subseteq> set bs" for p
  proof -
    have "set (spread_block E type_one type_two s (F p)) \<subseteq> set (F p)"
      using iter dF one_F [unfolded Q_def] by (rule spread_block_subset)
    then show ?thesis by (auto simp: F_def)
  qed
  have "set chosen \<subseteq> set bs"
    using sub_F by (auto simp: chosen_def snd_m)
  then have names: "set (map barcode chosen) \<subseteq> set (columns df)"
    by (auto simp: bs_def barcodes_def mk_barcode_def)
  have p: "paired E df type_one type_two None (Some s) = getitem df (map barcode chosen)"
    using loop by (simp add: paired_def truthy_int_def m_def chosen_def)
  have "getitem df (map barcode chosen) =
          Inr (df\<lparr>series := map (\<lambda>n. (n, the (map_of (series df) n))) (map barcode chosen)\<rparr>)"
    using d names by (rule getitem_labels)
  also have "map (\<lambda>n. (n, the (map_of (series df) n))) (map barcode chosen) = map cb chosen"
    by (simp add: cb_def comp_def)
  also have "map cb chosen = concat (map blk (map fst m))"
    by (simp add: chosen_def snd_m blk_def map_concat comp_def)
  also have "\<dots> = concat (map blk (filter Q (map fst m)))"
    by (rule concat_map_filter_blocks) (simp add: blk_def Q_def spread_block_def)
  finally have r: "paired E df type_one type_two None (Some s) =
      Inr (df\<lparr>series := concat (map blk (filter Q (map fst m)))\<rparr>)"
    using p by simp
  have dps: "distinct (filter Q (map fst m))" using dk by simp
  have sps: "set (filter Q (map fst m)) =
      {p. has_sample E df p type_one \<and> has_sample E df p type_two}"
  proof -
    have "p \<in> set (map fst m)" if "has_sample E df p type_one" for p
    proof -
      from that have "p \<in> participant ` set bs"
        by (force simp: has_sample_def bs_def barcodes_def mk_barcode_def)
      with keys show ?thesis by blast
    qed
    then show ?thesis by (auto simp: Q_iff)
  qed
  have blocks: "\<exists>xs c. blk p = xs @ replicate (length xs) c \<and>
              mset xs = mset (samples_of E df p (if s = type_one then type_two else type_one)) \<and>
              c \<in> set (samples_of E df p s)" if "p \<in> set (filter Q (map fst m))" for p
  proof -
    from that have q: "Q p" by simp
    then have h: "has_sample E df p type_one \<and> has_sample E df p type_two"
      by (simp add: Q_iff)
    then obtain n where "n \<in> set (columns df)" "participant_of E n = p"
      by (auto simp: has_sample_def)
    with one h have l: "length (samples_of E df p s) = 1" by blast
    from q have b: "both_types type_one type_two (filter (\<lambda>b. participant b = p) (barcodes E df))"
      by (simp add: Q_def F_def bs_def)
    from spread_block_columns [OF d iter b l] show ?thesis
      by (simp add: blk_def cb_def F_def bs_def)
  qed
  let ?r = "df\<lparr>series := concat (map blk (filter Q (map fst m)))\<rparr>"
  let ?ps = "filter Q (map fst m)"
  have "paired E df type_one type_two None (Some s) = Inr ?r \<and> index ?r = index df \<and>
           series ?r = concat (map blk ?ps) \<and> distinct ?ps \<and>
           set ?ps = {p. has_sample E df p type_one \<and> has_sample E df p type_two} \<and>
           (\<forall>p \<in> set ?ps. \<exists>xs c.
              blk p = xs @ replicate (length xs) c \<and>
              mset xs = mset (samples_of E df p (if s = type_one then type_two else type_one)) \<and>
              c \<in> set (samples_of E df p s))"
  proof (intro conjI ballI)
    show "paired E df type_one type_two None (Some s) = Inr ?r" by (rule r)
    show "index ?r = index df" by simp
    show "series ?r = concat (map blk ?ps)" by simp
    show "distinct ?ps" by (rule dps)
    show "set ?ps = {p. has_sample E df p type_one \<and> has_sample E df p type_two}" by (rule sps)
    show "\<exists>xs c. blk p = xs @ replicate (length xs) c \<and>
              mset xs = mset (samples_of E df p (if s = type_one then type_two else type_one)) \<and>
              c \<in> set (samples_of E df p s)" if "p \<in> set ?ps" for p
      using that by (rule blocks)
  qed
  then show ?thesis
    by (intro exI [of _ ?r] exI [of _ ?ps] exI [of _ blk])
qed

theorem paired_spread_witness:
  "''tumor'' \<in> set (sample_type_ranges_values example_tcga) \<and>
   ''normal'' \<in> set (sample_type_ranges_values example_tcga) \<and>
   ''normal'' \<noteq> [] \<and> (''normal'' = ''tumor'' \<or> ''normal'' = ''normal'') \<and>
   distinct (columns example_expression) \<and>
   length (samples_of example_tcga example_expression ''P1'' ''normal'') = 1 \<and>
   (\<exists>ps blk.
      series \<lparr>index = [''TP53'', ''BRCA1''],
              series = [(''P1-a-tumor'', [Num 5, Num 1]), (''P1-c-tumor'', [Num 7, Num 2]),
                        (''P1-b-normal'', [Num 3, NaN]), (''P1-b-normal'', [Num 3, NaN])]\<rparr> =
        concat (map blk ps) \<and> distinct ps \<and>
      set ps = {p. has_sample example_tcga example_expression p ''tumor'' \<and>
                   has_sample example_tcga example_expression p ''normal''} \<and>
      (\<forall>p \<in> set ps. \<exists>xs c.
         blk p = xs @ replicate (length xs) c \<and>
         mset xs = mset (samples_of example_tcga example_expression p
                           (if ''normal'' = ''tumor'' then ''normal'' else ''tumor'')) \<and>
         c \<in> set (samples_of example_tcga example_expression p ''normal'')))"
proof -
  have h1: "''tumor'' \<in> set (sample_type_ranges_values example_tcga)"
    and h2: "''normal'' \<in> set (sample_type_ranges_values example_tcga)"
    by (simp_all add: example_tcga_def)
  have h3: "''normal'' \<noteq> []" and h4: "''normal'' = ''tumor'' \<or> ''normal'' = ''normal''"
    by simp_all
  have h5: "distinct (columns example_expression)"
    by (simp add: example_expression_def columns_def)
  have h6: "\<forall>xs. distinct xs \<longrightarrow> mset (set_iter example_tcga xs) = mset xs"
    by (simp add: example_tcga_def)
  have h7: "\<forall>n \<in> set (columns example_expression).
      has_sample example_tcga example_expression (participant_of example_tcga n) ''tumor'' \<and>
      has_sample example_tcga example_expression (participant_of example_tcga n) ''normal'' \<longrightarrow>
      length (samples_of example_tcga example_expression (participant_of example_tcga n) ''normal'') = 1"
    by (simp add: has_sample_def samples_of_def example_tcga_def example_expression_def
        columns_def)
  from paired_spread [OF h1 h2 h3 h4 h5 h6 h7] obtain r ps blk
    where r: "paired example_tcga example_expression ''tumor'' ''normal'' None (Some ''normal'') = Inr r"
      and rest: "series r = concat (map blk ps) \<and> distinct ps \<and>
      set ps = {p. has_sample example_tcga example_expression p ''tumor'' \<and>
                   has_sample example_tcga example_expression p ''normal''} \<and>
      (\<forall>p \<in> set ps. \<exists>xs c.
         blk p = xs @ replicate (length xs) c \<and>
         mset xs = mset (samples_of example_tcga example_expression p
                           (if ''normal'' = ''tumor'' then ''normal'' else ''tumor'')) \<and>
         c \<in> set (samples_of example_tcga example_expression p ''normal''))"
    by blast
  from r have "r = \<lparr>index = [''TP53'', ''BRCA1''],
              series = [(''P1-a-tumor'', [Num 5, Num 1]), (''P1-c-tumor'', [Num 7, Num 2]),
                        (''P1-b-normal'', [Num 3, NaN]), (''P1-b-normal'', [Num 3, NaN])]\<rparr>"
    by (simp add: example_paired_spread)
  moreover have "length (samples_of example_tcga example_expression ''P1'' ''normal'') = 1"
    by (simp add: samples_of_def example_tcga_def example_expression_def)
  ultimately show ?thesis using rest h1 h2 h3 h4 h5 by blast
qed

text \<open>
  Claim C8. For sample types of \<^verbatim>\<open>sample_type_ranges\<close> and \<^verbatim>\<open>only_paired=True\<close>, \<^verbatim>\<open>split\<close>
  returns None when the paired subset is empty (\<^verbatim>\<open>paired.empty\<close>), and otherwise the pair
  \<open>(cases, controls)\<close>, where the columns of \<open>cases\<close> are exactly the paired columns whose class
  is \<open>case'\<close> and the columns of \<open>controls\<close> exactly those whose class is \<open>control'\<close>, both with
  the rows of the paired subset. When the column labels are distinct, each such column
  occurs once, in the order of the paired subset.
\<close>

theorem split_only_paired:
  assumes "case' \<in> set (sample_type_ranges_values E)"
    and "control' \<in> set (sample_type_ranges_values E)"
  shows "\<exists>p. paired E df case' control' None None = Inr p \<and>
           (if empty p then split E df case' control' True = Inr None
            else \<exists>cases controls.
                   split E df case' control' True = Inr (Some (cases, controls)) \<and>
                   index cases = index p \<and> index controls = index p \<and>
                   set (series cases) = {c \<in> set (series p). sample_type_of E (fst c) = case'} \<and>
                   set (series controls) = {c \<in> set (series p). sample_type_of E (fst c) = control'} \<and>
                   (distinct (columns df) \<longrightarrow>
                      series cases = filter (\<lambda>c. sample_type_of E (fst c) = case') (series p) \<and>
                      series controls = filter (\<lambda>c. sample_type_of E (fst c) = control') (series p)))"
proof -
  let ?P = "\<lambda>n. has_sample E df (participant_of E n) case' \<and>
                 has_sample E df (participant_of E n) control'"
  from paired_plain_labels [OF assms(1,2)] obtain names
    where p: "paired E df case' control' None None = getitem df names"
      and names: "mset names = mset (filter ?P (columns df))"
    by blast
  from names have "set names = set (filter ?P (columns df))"
    by (rule mset_eq_setD)
  then have "set names \<subseteq> set (columns df)" by auto
  from getitem_set [OF this] p obtain r
    where r: "paired E df case' control' None None = Inr r"
    by auto
  have d: "distinct (columns r)" if "distinct (columns df)"
  proof -
    from p r have "getitem df names = Inr r" by simp
    with getitem_mset [OF that names]
    have "mset (series r) = mset (filter (\<lambda>c. ?P (fst c)) (series df))" by auto
    with that show ?thesis by (rule distinct_columns_mset)
  qed
  have sel: "\<exists>x. getitem r (columns_of_class E r t) = Inr x \<and> index x = index r \<and>
      set (series x) = {c \<in> set (series r). sample_type_of E (fst c) = t} \<and>
      (distinct (columns df) \<longrightarrow> series x = filter (\<lambda>c. sample_type_of E (fst c) = t) (series r))"
    for t
  proof -
    have "set (columns_of_class E r t) \<subseteq> set (columns r)"
      by (auto simp: columns_of_class_eq)
    from getitem_set [OF this] obtain x
      where x: "getitem r (columns_of_class E r t) = Inr x" "index x = index r"
        "set (series x) = {c \<in> set (series r). fst c \<in> set (columns_of_class E r t)}"
      by blast
    have "set (series x) = {c \<in> set (series r). sample_type_of E (fst c) = t}"
      unfolding x(3) by (auto simp: columns_of_class_eq columns_def)
    moreover have "series x = filter (\<lambda>c. sample_type_of E (fst c) = t) (series r)"
      if "distinct (columns df)"
    proof -
      from x(1) getitem_filter [OF d [OF that], of "\<lambda>n. sample_type_of E n = t"]
      have "x = r\<lparr>series := filter (\<lambda>c. sample_type_of E (fst c) = t) (series r)\<rparr>"
        by (simp add: columns_of_class_eq)
      then show ?thesis by simp
    qed
    ultimately show ?thesis using x(1,2) by blast
  qed
  show ?thesis
  proof (cases "empty r")
    case True
    with r show ?thesis by (simp add: split_def)
  next
    case False
    from sel [of case'] obtain cases
      where a: "getitem r (columns_of_class E r case') = Inr cases" "index cases = index r"
        "set (series cases) = {c \<in> set (series r). sample_type_of E (fst c) = case'}"
        "distinct (columns df) \<longrightarrow>
           series cases = filter (\<lambda>c. sample_type_of E (fst c) = case') (series r)"
      by blast
    from sel [of control'] obtain controls
      where b: "getitem r (columns_of_class E r control') = Inr controls" "index controls = index r"
        "set (series controls) = {c \<in> set (series r). sample_type_of E (fst c) = control'}"
        "distinct (columns df) \<longrightarrow>
           series controls = filter (\<lambda>c. sample_type_of E (fst c) = control') (series r)"
      by blast
    have "split E df case' control' True = Inr (Some (cases, controls))"
      using r False a(1) b(1) by (simp add: split_def)
    with False r a b show ?thesis by auto
  qed
qed

theorem split_only_paired_witness:
  "''tumor'' \<in> set (sample_type_ranges_values example_tcga) \<and>
   ''normal'' \<in> set (sample_type_ranges_values example_tcga) \<and>
   distinct (columns example_expression) \<and>
   (\<exists>p cases controls.
      paired example_tcga example_expression ''tumor'' ''normal'' None None = Inr p \<and>
      \<not> empty p \<and>
      split example_tcga example_expression ''tumor'' ''normal'' True = Inr (Some (cases, controls)) \<and>
      series cases = [(''P1-a-tumor'', [Num 5, Num 1]), (''P1-c-tumor'', [Num 7, Num 2])] \<and>
      series controls = [(''P1-b-normal'', [Num 3, NaN])])"
proof -
  have h1: "''tumor'' \<in> set (sample_type_ranges_values example_tcga)"
    and h2: "''normal'' \<in> set (sample_type_ranges_values example_tcga)"
    by (simp_all add: example_tcga_def)
  have h3: "distinct (columns example_expression)"
    by (simp add: example_expression_def columns_def)
  from split_only_paired [OF h1 h2] obtain p
    where p: "paired example_tcga example_expression ''tumor'' ''normal'' None None = Inr p"
      and c: "if empty p
              then split example_tcga example_expression ''tumor'' ''normal'' True = Inr None
              else \<exists>cases controls.
                   split example_tcga example_expression ''tumor'' ''normal'' True =
                     Inr (Some (cases, controls)) \<and>
                   index cases = index p \<and> index controls = index p \<and>
                   set (series cases) =
                     {c \<in> set (series p). sample_type_of example_tcga (fst c) = ''tumor''} \<and>
                   set (series controls) =
                     {c \<in> set (series p). sample_type_of example_tcga (fst c) = ''normal''} \<and>
                   (distinct (columns example_expression) \<longrightarrow>
                      series cases =
                        filter (\<lambda>c. sample_type_of example_tcga (fst c) = ''tumor'') (series p) \<and>
                      series controls =
                        filter (\<lambda>c. sample_type_of example_tcga (fst c) = ''normal'') (series p))"
    by blast
  from p have pv: "p = \<lparr>index = [''TP53'', ''BRCA1''],
          series = [(''P1-a-tumor'', [Num 5, Num 1]), (''P1-b-normal'', [Num 3, NaN]),
                    (''P1-c-tumor'', [Num 7, Num 2])]\<rparr>"
    by (simp add: example_paired)
  then have ne: "\<not> empty p" by (simp add: empty_def)
  with c h3 obtain cases controls
    where s: "split example_tcga example_expression ''tumor'' ''normal'' True =
                     Inr (Some (cases, controls))"
      and "series cases =
             filter (\<lambda>c. sample_type_of example_tcga (fst c) = ''tumor'') (series p)"
      and "series controls =
             filter (\<lambda>c. sample_type_of example_tcga (fst c) = ''normal'') (series p)"
    by auto
  then have "series cases = [(''P1-a-tumor'', [Num 5, Num 1]), (''P1-c-tumor'', [Num 7, Num 2])]"
    and "series controls = [(''P1-b-normal'', [Num 3, NaN])]"
    by (simp_all add: pv example_tcga_def)
  with p ne s h1 h2 h3 show ?thesis by blast
qed



















section \<open>The claims about the GSVA scoring function\<close>

lemma example_first_call:
  "gsva example_session example_profile ''c2.cp.kegg'' ''gsva'' True (Some 1000) True True fresh_state =
     (Inr example_disease_table,
      \<lparr>GSVA_CACHE = [(1, ''gsva'', ''c2.cp.kegg'') \<mapsto> example_disease_table],
       process_specific_counter = 1,
       r_events = [Gsva \<lparr>req_expression = example_profile, req_gene_sets = ''c2.cp.kegg'',
                         req_method = ''gsva'', req_single_sample = True,
                         req_permutations = Some 1000, req_mx_diff = True\<rparr>]\<rparr>)"
  by (simp add: gsva_def fresh_state_def example_profile_def example_session_def Let_def)

lemma zip_key_unique:
  assumes "distinct idx" and "(g, v) \<in> set (zip idx col)" and "(g, v') \<in> set (zip idx col)"
  shows "v = v'"
proof -
  have "distinct (map fst (zip idx col))"
    using assms(1) by (simp add: map_fst_zip_take)
  then show ?thesis using assms(2,3) by (rule eq_key_imp_eq_value)
qed

lemma filter_index_by_zip:
  assumes "length col = length idx"
    and "\<forall>(g, v) \<in> set (zip idx col). g \<in> S \<longleftrightarrow> P v"
  shows "filter (\<lambda>g. g \<notin> S) idx = map fst (filter (\<lambda>(g, v). \<not> P v) (zip idx col))"
  using assms by (induction col idx rule: list_induct2) auto

lemma filter_values_by_zip:
  assumes "length col = length idx"
    and "\<forall>(g, x) \<in> set (zip idx col). g \<in> S \<longleftrightarrow> P x"
  shows "map snd (filter (\<lambda>(g, v). g \<notin> S) (zip idx vs)) =
         map fst (filter (\<lambda>(v, x). \<not> P x) (zip vs col))"
  using assms
proof (induction col idx arbitrary: vs rule: list_induct2)
  case Nil
  then show ?case by simp
next
  case (Cons x col g idx)
  then show ?case by (cases vs) auto
qed

lemma labels_above_iff:
  assumes "distinct (index d)" and "(g, v) \<in> set (zip (index d) fdr)"
  shows "g \<in> set (labels_above d fdr cutoff) \<longleftrightarrow> gt v cutoff"
proof
  assume "g \<in> set (labels_above d fdr cutoff)"
  then obtain v' where "(g, v') \<in> set (zip (index d) fdr)" "gt v' cutoff"
    by (auto simp: labels_above_def)
  with zip_key_unique [OF assms(1) assms(2)] show "gt v cutoff" by blast
next
  assume "gt v cutoff"
  with assms(2) show "g \<in> set (labels_above d fdr cutoff)"
    by (force simp: labels_above_def)
qed

lemma drop_insignificant_keep_significant:
  assumes d: "distinct (index d)" and l: "length fdr = length (index d)"
  shows "drop_insignificant cutoff fdr d = keep_significant cutoff fdr d"
proof -
  have iff: "\<forall>(g, x) \<in> set (zip (index d) fdr).
               g \<in> set (labels_above d fdr cutoff) \<longleftrightarrow> gt x cutoff"
    using labels_above_iff [OF d] by blast
  have i: "filter (\<lambda>g. g \<notin> set (labels_above d fdr cutoff)) (index d) =
           map fst (filter (\<lambda>(g, x). \<not> gt x cutoff) (zip (index d) fdr))"
    using l iff by (rule filter_index_by_zip)
  have v: "map snd (filter (\<lambda>(g, v). g \<notin> set (labels_above d fdr cutoff)) (zip (index d) vs)) =
           map fst (filter (\<lambda>(v, x). \<not> gt x cutoff) (zip vs fdr))" for vs
    using l iff by (rule filter_values_by_zip)
  show ?thesis
    unfolding drop_insignificant_def drop_rows_def keep_significant_def
    by (simp only: i v)
qed

lemma drop_insignificant_repeated_names:
  "drop_insignificant (Num (1 / 10)) [Num (1 / 2), Num (1 / 20)]
     \<lparr>index = [''KEGG_A'', ''KEGG_A''],
      series = [(''nes'', [Num 1, Num 7]), (''fdr_q-val'', [Num (1 / 2), Num (1 / 20)])]\<rparr> =
     \<lparr>index = [], series = [(''nes'', []), (''fdr_q-val'', [])]\<rparr>"
  by (simp add: drop_insignificant_def drop_rows_def labels_above_def)

lemma gsva_score_steps:
  "gsva_score V cfg disease compound st = (Inr v, st') \<longleftrightarrow>
      (\<exists>d st1 fdr c joined score.
         gsva (r_session V) disease (cfg_gene_sets cfg) (cfg_gsva_method cfg)
           (cfg_single_sample cfg) (cfg_permutations cfg) (cfg_mx_diff cfg) True
           (st\<lparr>GSVA_CACHE := respawn_cache_if_needed V (GSVA_CACHE st)\<rparr>) = (Inr d, st1) \<and>
         map_of (series d) ''fdr_q-val'' = Some fdr \<and>
         gsva (r_session V) compound (cfg_gene_sets cfg) (cfg_gsva_method cfg)
           (cfg_single_sample cfg) (cfg_permutations cfg) (cfg_mx_diff cfg) False
           (changed_in_place V (hashable disease, cfg_gsva_method cfg, cfg_gene_sets cfg)
              (drop_insignificant (cfg_q_value_cutoff cfg) fdr d) st1) = (Inr c, st') \<and>
         combine_gsea_results V (drop_insignificant (cfg_q_value_cutoff cfg) fdr d) c
           (cfg_na_action cfg) = Inr joined \<and>
         map_of (series joined) ''score'' = Some score \<and>
         v = series_mean score)"
  unfolding gsva_score_def Let_def
  by (auto split: prod.splits sum.splits option.splits)

lemma example_disease_call:
  "gsva (r_session example_env) example_disease (cfg_gene_sets default_config)
     (cfg_gsva_method default_config) (cfg_single_sample default_config)
     (cfg_permutations default_config) (cfg_mx_diff default_config) True
     (fresh_state\<lparr>GSVA_CACHE := respawn_cache_if_needed example_env (GSVA_CACHE fresh_state)\<rparr>) =
     (Inr example_disease_table,
      \<lparr>GSVA_CACHE = [(1, ''gsva'', ''c2.cp.kegg'') \<mapsto> example_disease_table],
       process_specific_counter = 1,
       r_events = [Gsva \<lparr>req_expression = example_disease, req_gene_sets = ''c2.cp.kegg'',
                         req_method = ''gsva'', req_single_sample = False,
                         req_permutations = None, req_mx_diff = True\<rparr>]\<rparr>)"
  by (simp add: gsva_def fresh_state_def example_disease_def example_session_def example_env_def
      default_config_def truthy_int_def Let_def)

lemma example_kept:
  "keep_significant (Num (1 / 10)) [Num (1 / 20), Num (1 / 2), NaN] example_disease_table =
     \<lparr>index = [''KEGG_A'', ''KEGG_C''],
      series = [(''nes'', [Num 1, Num 4]), (''fdr_q-val'', [Num (1 / 20), NaN])]\<rparr>"
  by (simp add: keep_significant_def example_disease_table_def)

lemma example_compound_call:
  "gsva (r_session example_env) example_compound (cfg_gene_sets default_config)
     (cfg_gsva_method default_config) (cfg_single_sample default_config)
     (cfg_permutations default_config) (cfg_mx_diff default_config) False
     (changed_in_place example_env
        (hashable example_disease, cfg_gsva_method default_config, cfg_gene_sets default_config)
        \<lparr>index = [''KEGG_A'', ''KEGG_C''],
         series = [(''nes'', [Num 1, Num 4]), (''fdr_q-val'', [Num (1 / 20), NaN])]\<rparr>
        \<lparr>GSVA_CACHE = [(1, ''gsva'', ''c2.cp.kegg'') \<mapsto> example_disease_table],
         process_specific_counter = 1,
         r_events = [Gsva \<lparr>req_expression = example_disease, req_gene_sets = ''c2.cp.kegg'',
                           req_method = ''gsva'', req_single_sample = False,
                           req_permutations = None, req_mx_diff = True\<rparr>]\<rparr>) =
     (Inr example_compound_table,
      \<lparr>GSVA_CACHE = [(1, ''gsva'', ''c2.cp.kegg'') \<mapsto>
                       \<lparr>index = [''KEGG_A'', ''KEGG_C''],
                        series = [(''nes'', [Num 1, Num 4]), (''fdr_q-val'', [Num (1 / 20), NaN])]\<rparr>],
       process_specific_counter = 2,
       r_events = [Gsva \<lparr>req_expression = example_disease, req_gene_sets = ''c2.cp.kegg'',
                         req_method = ''gsva'', req_single_sample = False,
                         req_permutations = None, req_mx_diff = True\<rparr>,
                   Gsva \<lparr>req_expression = example_compound, req_gene_sets = ''c2.cp.kegg'',
                         req_method = ''gsva'', req_single_sample = False,
                         req_permutations = None, req_mx_diff = True\<rparr>]\<rparr>)"
  by (simp add: gsva_def changed_in_place_def example_disease_def example_compound_def
      example_session_def example_env_def default_config_def truthy_int_def Let_def)


text \<open>
  Claim C5. A call of \<^verbatim>\<open>gsva\<close> with \<^verbatim>\<open>single_sample\<close> falsy and \<^verbatim>\<open>permutations\<close> truthy, as
  with the default arguments \<^verbatim>\<open>single_sample=False, permutations=1000\<close>, raises an exception
  before anything is computed: the R session is not asked anything and \<^verbatim>\<open>GSVA_CACHE\<close> and the
  rest of the module state are unchanged. This holds whether or not the key is cached.
\<close>

theorem gsva_permutations_without_single_sample:
  assumes "\<not> single_sample" and "truthy_int permutations"
  shows "gsva R expression gene_sets gsva_method single_sample permutations mx_diff cache st =
           (Inl TypeError, st)"
  using assms by (simp add: gsva_def)

theorem gsva_permutations_without_single_sample_witness:
  "\<not> False \<and> truthy_int (Some 1000) \<and>
   GSVA_CACHE fresh_state (hashable example_disease, ''gsva'', ''c2.cp.kegg'') = None \<and>
   gsva example_session example_disease ''c2.cp.kegg'' ''gsva'' False (Some 1000) True True fresh_state =
     (Inl TypeError, fresh_state)"
proof -
  have h1: "\<not> False" by simp
  have h2: "truthy_int (Some 1000)" by (simp add: truthy_int_def)
  have "GSVA_CACHE fresh_state (hashable example_disease, ''gsva'', ''c2.cp.kegg'') = None"
    by (simp add: fresh_state_def)
  with gsva_permutations_without_single_sample [OF h1 h2] h2 show ?thesis by simp
qed

text \<open>
  Claim C2, as stated, fails: with the key already in \<^verbatim>\<open>GSVA_CACHE\<close>, a call with the default
  arguments \<^verbatim>\<open>single_sample=False, permutations=1000\<close> does not return the stored result but
  raises, since the check of \<^verbatim>\<open>permutations\<close> stands before the cache lookup.
\<close>

theorem gsva_cached_key_raises:
  "GSVA_CACHE cached_state (hashable example_disease, ''gsva'', ''c2.cp.kegg'') =
     Some example_disease_table \<and>
   gsva example_session example_disease ''c2.cp.kegg'' ''gsva'' False (Some 1000) True True cached_state =
     (Inl TypeError, cached_state)"
  by (simp add: gsva_def truthy_int_def cached_state_def example_disease_def)

text \<open>
  Claim C2, amended. Among the calls that pass the check of \<^verbatim>\<open>permutations\<close>
  (\<^verbatim>\<open>single_sample\<close> truthy or \<^verbatim>\<open>permutations\<close> falsy), \<^verbatim>\<open>gsva\<close> memoizes its results: a call
  whose key \<^verbatim>\<open>(expression.hashable, method, gene_sets)\<close> is in \<^verbatim>\<open>GSVA_CACHE\<close> returns the stored
  result and leaves the cache, the counter and the R session untouched; a call with
  \<^verbatim>\<open>_cache=True\<close> whose key is absent and whose computation succeeds returns the computed
  result and stores it under the key.
\<close>

theorem gsva_memoizes:
  assumes "single_sample \<or> \<not> truthy_int permutations"
  shows "(GSVA_CACHE st (hashable expression, gsva_method, gene_sets) = Some stored \<longrightarrow>
            gsva R expression gene_sets gsva_method single_sample permutations mx_diff cache st =
              (Inr stored, st)) \<and>
         (GSVA_CACHE st (hashable expression, gsva_method, gene_sets) = None \<longrightarrow>
          (single_sample \<longrightarrow> is_Profile expression) \<longrightarrow>
          R \<lparr>req_expression = expression, req_gene_sets = gene_sets, req_method = gsva_method,
             req_single_sample = single_sample, req_permutations = permutations,
             req_mx_diff = mx_diff\<rparr> = Inr result \<longrightarrow>
            (\<exists>st'. gsva R expression gene_sets gsva_method single_sample permutations mx_diff True st =
                     (Inr result, st') \<and>
                   GSVA_CACHE st' =
                     (GSVA_CACHE st)((hashable expression, gsva_method, gene_sets) \<mapsto> result)))"
  using assms by (auto simp: gsva_def Let_def)

theorem gsva_memoizes_witness:
  "(False \<or> \<not> truthy_int None) \<and>
   GSVA_CACHE cached_state (hashable example_disease, ''gsva'', ''c2.cp.kegg'') =
     Some example_disease_table \<and>
   gsva example_session example_disease ''c2.cp.kegg'' ''gsva'' False None True True cached_state =
     (Inr example_disease_table, cached_state) \<and>
   GSVA_CACHE fresh_state (hashable example_disease, ''gsva'', ''c2.cp.kegg'') = None \<and>
   example_session \<lparr>req_expression = example_disease, req_gene_sets = ''c2.cp.kegg'',
                    req_method = ''gsva'', req_single_sample = False, req_permutations = None,
                    req_mx_diff = True\<rparr> = Inr example_disease_table \<and>
   (\<exists>st'. gsva example_session example_disease ''c2.cp.kegg'' ''gsva'' False None True True fresh_state =
            (Inr example_disease_table, st') \<and>
          GSVA_CACHE st' =
            (GSVA_CACHE fresh_state)((hashable example_disease, ''gsva'', ''c2.cp.kegg'') \<mapsto>
               example_disease_table))"
proof -
  have g: "False \<or> \<not> truthy_int None" by (simp add: truthy_int_def)
  have a: "GSVA_CACHE cached_state (hashable example_disease, ''gsva'', ''c2.cp.kegg'') =
     Some example_disease_table"
    by (simp add: cached_state_def example_disease_def)
  have b: "GSVA_CACHE fresh_state (hashable example_disease, ''gsva'', ''c2.cp.kegg'') = None"
    by (simp add: fresh_state_def)
  have c: "False \<longrightarrow> is_Profile example_disease" by simp
  have d: "example_session \<lparr>req_expression = example_disease, req_gene_sets = ''c2.cp.kegg'',
                    req_method = ''gsva'', req_single_sample = False, req_permutations = None,
                    req_mx_diff = True\<rparr> = Inr example_disease_table"
    by (simp add: example_session_def example_disease_def)
  from gsva_memoizes [OF g, of cached_state example_disease "''gsva''" "''c2.cp.kegg''"
      example_disease_table example_session True True] a
  have 1: "gsva example_session example_disease ''c2.cp.kegg'' ''gsva'' False None True True cached_state =
     (Inr example_disease_table, cached_state)"
    by blast
  from gsva_memoizes [OF g, of fresh_state example_disease "''gsva''" "''c2.cp.kegg''"
      example_disease_table example_session True True example_disease_table] b c d
  have 2: "\<exists>st'. gsva example_session example_disease ''c2.cp.kegg'' ''gsva'' False None True True fresh_state =
            (Inr example_disease_table, st') \<and>
          GSVA_CACHE st' =
            (GSVA_CACHE fresh_state)((hashable example_disease, ''gsva'', ''c2.cp.kegg'') \<mapsto>
               example_disease_table)"
    by blast
  from g a b d 1 2 show ?thesis by blast
qed

text \<open>
  Claim C6, as stated, fails: after a call with \<^verbatim>\<open>single_sample=True, permutations=1000\<close> has
  stored its result, a call that agrees on \<^verbatim>\<open>expression.hashable\<close>, \<^verbatim>\<open>method\<close> and
  \<^verbatim>\<open>gene_sets\<close> and differs only in \<^verbatim>\<open>single_sample=False\<close> raises instead of returning the
  stored result.
\<close>

theorem gsva_same_key_second_call_raises:
  "fst (gsva example_session example_profile ''c2.cp.kegg'' ''gsva'' True (Some 1000) True True
          fresh_state) = Inr example_disease_table \<and>
   hashable example_disease = hashable example_profile \<and>
   gsva example_session example_disease ''c2.cp.kegg'' ''gsva'' False (Some 1000) True True
     (snd (gsva example_session example_profile ''c2.cp.kegg'' ''gsva'' True (Some 1000) True True
             fresh_state)) =
     (Inl TypeError,
      snd (gsva example_session example_profile ''c2.cp.kegg'' ''gsva'' True (Some 1000) True True
             fresh_state))"
  unfolding example_first_call
  by (simp add: example_disease_def example_profile_def gsva_def truthy_int_def)

text \<open>
  Claim C6, amended. The cache key is only \<^verbatim>\<open>(expression.hashable, method, gene_sets)\<close>: when a
  call with \<^verbatim>\<open>_cache=True\<close> has returned a result, the next call that agrees with it on
  \<^verbatim>\<open>expression.hashable\<close>, \<^verbatim>\<open>method\<close> and \<^verbatim>\<open>gene_sets\<close> and passes the check of
  \<^verbatim>\<open>permutations\<close> (\<^verbatim>\<open>single_sample\<close> truthy or \<^verbatim>\<open>permutations\<close> falsy) returns the same
  result without computing anything, whatever its \<^verbatim>\<open>permutations\<close>, \<^verbatim>\<open>mx_diff\<close>,
  \<^verbatim>\<open>single_sample\<close> and expression object are.
\<close>

theorem gsva_same_key_same_result:
  assumes first: "gsva R e1 gene_sets gsva_method single_sample1 permutations1 mx_diff1 True st =
                    (Inr result, st1)"
    and key: "hashable e2 = hashable e1"
    and guard: "single_sample2 \<or> \<not> truthy_int permutations2"
  shows "gsva R e2 gene_sets gsva_method single_sample2 permutations2 mx_diff2 cache2 st1 =
           (Inr result, st1)"
proof -
  have "GSVA_CACHE st1 (hashable e1, gsva_method, gene_sets) = Some result"
    using first by (auto simp: gsva_def Let_def split: if_splits option.splits sum.splits)
  with key guard show ?thesis by (auto simp: gsva_def)
qed


theorem gsva_same_key_same_result_witness:
  "fst (gsva example_session example_profile ''c2.cp.kegg'' ''gsva'' True (Some 1000) True True
          fresh_state) = Inr example_disease_table \<and>
   hashable example_disease = hashable example_profile \<and>
   (False \<or> \<not> truthy_int None) \<and>
   gsva example_session example_disease ''c2.cp.kegg'' ''gsva'' False None False False
     (snd (gsva example_session example_profile ''c2.cp.kegg'' ''gsva'' True (Some 1000) True True
             fresh_state)) =
     (Inr example_disease_table,
      snd (gsva example_session example_profile ''c2.cp.kegg'' ''gsva'' True (Some 1000) True True
             fresh_state))"
proof -
  have h1: "gsva example_session example_profile ''c2.cp.kegg'' ''gsva'' True (Some 1000) True True
          fresh_state =
        (Inr example_disease_table,
         snd (gsva example_session example_profile ''c2.cp.kegg'' ''gsva'' True (Some 1000) True True
             fresh_state))"
    by (simp add: example_first_call)
  have h2: "hashable example_disease = hashable example_profile"
    by (simp add: example_disease_def example_profile_def)
  have h3: "False \<or> \<not> truthy_int None" by (simp add: truthy_int_def)
  have f: "fst (gsva example_session example_profile ''c2.cp.kegg'' ''gsva'' True (Some 1000) True True
          fresh_state) = Inr example_disease_table"
    by (simp add: example_first_call)
  from gsva_same_key_same_result [OF h1 h2 h3, of False False] f h2 h3 show ?thesis by blast
qed

text \<open>
  Claim C4, as stated, fails: the scorer of \<^verbatim>\<open>create_gsva_scorer(permutations=1000)\<close>, with
  \<^verbatim>\<open>single_sample\<close> left at its default, raises on every pair of profiles.
\<close>

theorem gsva_score_permutations_raise:
  "fst (gsva_score example_env (default_config\<lparr>cfg_permutations := Some 1000\<rparr>)
          example_disease example_compound fresh_state) = Inl TypeError"
  by (simp add: gsva_score_def gsva_def default_config_def truthy_int_def)

text \<open>
  Claim C4, amended. Let every table that the disease call of \<^verbatim>\<open>gsva\<close> can return have
  distinct gene set names and an \<^verbatim>\<open>fdr_q-val\<close> for each of them. Then the scoring function
  returns a score exactly when both of its calls of \<^verbatim>\<open>gsva\<close> return a table (the disease call
  with caching, the compound call without; both raise unless \<^verbatim>\<open>single_sample\<close> is truthy or
  \<^verbatim>\<open>permutations\<close> falsy), the disease table has a column \<^verbatim>\<open>fdr_q-val\<close> and
  \<^verbatim>\<open>combine_gsea_results\<close>, given the significant part of the disease table and the compound
  table, returns a table with a column \<^verbatim>\<open>score\<close>; the score is the mean of that column. The
  significant part is \<open>keep_significant\<close>: the rows whose own \<^verbatim>\<open>fdr_q-val\<close> does not exceed
  \<^verbatim>\<open>q_value_cutoff\<close> (a NaN does not exceed it), with their values in every column; it is also
  what a sharing cache holds for the disease afterwards.
\<close>

theorem gsva_score_mean:
  assumes wf: "\<forall>d st1 fdr.
      gsva (r_session V) disease (cfg_gene_sets cfg) (cfg_gsva_method cfg)
        (cfg_single_sample cfg) (cfg_permutations cfg) (cfg_mx_diff cfg) True
        (st\<lparr>GSVA_CACHE := respawn_cache_if_needed V (GSVA_CACHE st)\<rparr>) = (Inr d, st1) \<and>
      map_of (series d) ''fdr_q-val'' = Some fdr \<longrightarrow>
      distinct (index d) \<and> length fdr = length (index d)"
  shows "gsva_score V cfg disease compound st = (Inr v, st') \<longleftrightarrow>
      (\<exists>d st1 fdr c joined score.
         gsva (r_session V) disease (cfg_gene_sets cfg) (cfg_gsva_method cfg)
           (cfg_single_sample cfg) (cfg_permutations cfg) (cfg_mx_diff cfg) True
           (st\<lparr>GSVA_CACHE := respawn_cache_if_needed V (GSVA_CACHE st)\<rparr>) = (Inr d, st1) \<and>
         map_of (series d) ''fdr_q-val'' = Some fdr \<and>
         gsva (r_session V) compound (cfg_gene_sets cfg) (cfg_gsva_method cfg)
           (cfg_single_sample cfg) (cfg_permutations cfg) (cfg_mx_diff cfg) False
           (changed_in_place V (hashable disease, cfg_gsva_method cfg, cfg_gene_sets cfg)
              (keep_significant (cfg_q_value_cutoff cfg) fdr d) st1) = (Inr c, st') \<and>
         combine_gsea_results V (keep_significant (cfg_q_value_cutoff cfg) fdr d) c
           (cfg_na_action cfg) = Inr joined \<and>
         map_of (series joined) ''score'' = Some score \<and>
         v = series_mean score)"
proof -
  have eq: "drop_insignificant (cfg_q_value_cutoff cfg) fdr d =
            keep_significant (cfg_q_value_cutoff cfg) fdr d"
    if "gsva (r_session V) disease (cfg_gene_sets cfg) (cfg_gsva_method cfg)
          (cfg_single_sample cfg) (cfg_permutations cfg) (cfg_mx_diff cfg) True
          (st\<lparr>GSVA_CACHE := respawn_cache_if_needed V (GSVA_CACHE st)\<rparr>) = (Inr d, st1)"
      and "map_of (series d) ''fdr_q-val'' = Some fdr" for d st1 fdr
  proof -
    from wf that have "distinct (index d)" and "length fdr = length (index d)" by blast+
    then show ?thesis by (rule drop_insignificant_keep_significant)
  qed
  show ?thesis
    unfolding gsva_score_steps
  proof (intro iffI; elim exE conjE)
    fix d st1 fdr c joined score
    assume a: "gsva (r_session V) disease (cfg_gene_sets cfg) (cfg_gsva_method cfg)
          (cfg_single_sample cfg) (cfg_permutations cfg) (cfg_mx_diff cfg) True
          (st\<lparr>GSVA_CACHE := respawn_cache_if_needed V (GSVA_CACHE st)\<rparr>) = (Inr d, st1)"
      and b: "map_of (series d) ''fdr_q-val'' = Some fdr"
      and c: "gsva (r_session V) compound (cfg_gene_sets cfg) (cfg_gsva_method cfg)
           (cfg_single_sample cfg) (cfg_permutations cfg) (cfg_mx_diff cfg) False
           (changed_in_place V (hashable disease, cfg_gsva_method cfg, cfg_gene_sets cfg)
              (drop_insignificant (cfg_q_value_cutoff cfg) fdr d) st1) = (Inr c, st')"
      and j: "combine_gsea_results V (drop_insignificant (cfg_q_value_cutoff cfg) fdr d) c
           (cfg_na_action cfg) = Inr joined"
      and s: "map_of (series joined) ''score'' = Some score"
      and v: "v = series_mean score"
    from c j show "\<exists>d st1 fdr c joined score.
         gsva (r_session V) disease (cfg_gene_sets cfg) (cfg_gsva_method cfg)
           (cfg_single_sample cfg) (cfg_permutations cfg) (cfg_mx_diff cfg) True
           (st\<lparr>GSVA_CACHE := respawn_cache_if_needed V (GSVA_CACHE st)\<rparr>) = (Inr d, st1) \<and>
         map_of (series d) ''fdr_q-val'' = Some fdr \<and>
         gsva (r_session V) compound (cfg_gene_sets cfg) (cfg_gsva_method cfg)
           (cfg_single_sample cfg) (cfg_permutations cfg) (cfg_mx_diff cfg) False
           (changed_in_place V (hashable disease, cfg_gsva_method cfg, cfg_gene_sets cfg)
              (keep_significant (cfg_q_value_cutoff cfg) fdr d) st1) = (Inr c, st') \<and>
         combine_gsea_results V (keep_significant (cfg_q_value_cutoff cfg) fdr d) c
           (cfg_na_action cfg) = Inr joined \<and>
         map_of (series joined) ''score'' = Some score \<and>
         v = series_mean score"
      unfolding eq [OF a b] using a b s v by blast
  next
    fix d st1 fdr c joined score
    assume a: "gsva (r_session V) disease (cfg_gene_sets cfg) (cfg_gsva_method cfg)
          (cfg_single_sample cfg) (cfg_permutations cfg) (cfg_mx_diff cfg) True
          (st\<lparr>GSVA_CACHE := respawn_cache_if_needed V (GSVA_CACHE st)\<rparr>) = (Inr d, st1)"
      and b: "map_of (series d) ''fdr_q-val'' = Some fdr"
      and c: "gsva (r_session V) compound (cfg_gene_sets cfg) (cfg_gsva_method cfg)
           (cfg_single_sample cfg) (cfg_permutations cfg) (cfg_mx_diff cfg) False
           (changed_in_place V (hashable disease, cfg_gsva_method cfg, cfg_gene_sets cfg)
              (keep_significant (cfg_q_value_cutoff cfg) fdr d) st1) = (Inr c, st')"
      and j: "combine_gsea_results V (keep_significant (cfg_q_value_cutoff cfg) fdr d) c
           (cfg_na_action cfg) = Inr joined"
      and s: "map_of (series joined) ''score'' = Some score"
      and v: "v = series_mean score"
    from c j show "\<exists>d st1 fdr c joined score.
         gsva (r_session V) disease (cfg_gene_sets cfg) (cfg_gsva_method cfg)
           (cfg_single_sample cfg) (cfg_permutations cfg) (cfg_mx_diff cfg) True
           (st\<lparr>GSVA_CACHE := respawn_cache_if_needed V (GSVA_CACHE st)\<rparr>) = (Inr d, st1) \<and>
         map_of (series d) ''fdr_q-val'' = Some fdr \<and>
         gsva (r_session V) compound (cfg_gene_sets cfg) (cfg_gsva_method cfg)
           (cfg_single_sample cfg) (cfg_permutations cfg) (cfg_mx_diff cfg) False
           (changed_in_place V (hashable disease, cfg_gsva_method cfg, cfg_gene_sets cfg)
              (drop_insignificant (cfg_q_value_cutoff cfg) fdr d) st1) = (Inr c, st') \<and>
         combine_gsea_results V (drop_insignificant (cfg_q_value_cutoff cfg) fdr d) c
           (cfg_na_action cfg) = Inr joined \<and>
         map_of (series joined) ''score'' = Some score \<and>
         v = series_mean score"
      unfolding eq [OF a b, symmetric] using a b s v by blast
  qed
qed


theorem gsva_score_mean_witness:
  "gsva_score example_env default_config example_disease example_compound fresh_state =
     (Inr (Num 2),
      \<lparr>GSVA_CACHE = [(1, ''gsva'', ''c2.cp.kegg'') \<mapsto>
                       \<lparr>index = [''KEGG_A'', ''KEGG_C''],
                        series = [(''nes'', [Num 1, Num 4]), (''fdr_q-val'', [Num (1 / 20), NaN])]\<rparr>],
       process_specific_counter = 2,
       r_events = [Gsva \<lparr>req_expression = example_disease, req_gene_sets = ''c2.cp.kegg'',
                         req_method = ''gsva'', req_single_sample = False,
                         req_permutations = None, req_mx_diff = True\<rparr>,
                   Gsva \<lparr>req_expression = example_compound, req_gene_sets = ''c2.cp.kegg'',
                         req_method = ''gsva'', req_single_sample = False,
                         req_permutations = None, req_mx_diff = True\<rparr>]\<rparr>) \<and>
   map_of (series example_disease_table) ''fdr_q-val'' = Some [Num (1 / 20), Num (1 / 2), NaN] \<and>
   distinct (index example_disease_table) \<and>
   length [Num (1 / 20), Num (1 / 2), NaN] = length (index example_disease_table) \<and>
   keep_significant (cfg_q_value_cutoff default_config) [Num (1 / 20), Num (1 / 2), NaN]
       example_disease_table =
     \<lparr>index = [''KEGG_A'', ''KEGG_C''],
      series = [(''nes'', [Num 1, Num 4]), (''fdr_q-val'', [Num (1 / 20), NaN])]\<rparr> \<and>
   series_mean [Num 1, Num 4, Num 3, Num 0] = Num 2 \<and>
   series_mean [Num 1, Num 7, Num 4, Num 3, Num 0] = Num 3"
proof -
  let ?fdr = "[Num (1 / 20), Num (1 / 2), NaN]"
  let ?kept = "\<lparr>index = [''KEGG_A'', ''KEGG_C''],
      series = [(''nes'', [Num 1, Num 4]), (''fdr_q-val'', [Num (1 / 20), NaN])]\<rparr>"
  let ?st1 = "\<lparr>GSVA_CACHE = [(1, ''gsva'', ''c2.cp.kegg'') \<mapsto> example_disease_table],
       process_specific_counter = 1,
       r_events = [Gsva \<lparr>req_expression = example_disease, req_gene_sets = ''c2.cp.kegg'',
                         req_method = ''gsva'', req_single_sample = False,
                         req_permutations = None, req_mx_diff = True\<rparr>]\<rparr>"
  let ?st2 = "\<lparr>GSVA_CACHE = [(1, ''gsva'', ''c2.cp.kegg'') \<mapsto> ?kept],
       process_specific_counter = 2,
       r_events = [Gsva \<lparr>req_expression = example_disease, req_gene_sets = ''c2.cp.kegg'',
                         req_method = ''gsva'', req_single_sample = False,
                         req_permutations = None, req_mx_diff = True\<rparr>,
                   Gsva \<lparr>req_expression = example_compound, req_gene_sets = ''c2.cp.kegg'',
                         req_method = ''gsva'', req_single_sample = False,
                         req_permutations = None, req_mx_diff = True\<rparr>]\<rparr>"
  let ?joined = "\<lparr>index = [''KEGG_A'', ''KEGG_C'', ''KEGG_A'', ''KEGG_C''],
                  series = [(''score'', [Num 1, Num 4, Num 3, Num 0])]\<rparr>"
  have f: "map_of (series example_disease_table) ''fdr_q-val'' = Some ?fdr"
    by (simp add: example_disease_table_def)
  have d: "distinct (index example_disease_table)"
    and l: "length ?fdr = length (index example_disease_table)"
    by (simp_all add: example_disease_table_def)
  have k: "keep_significant (cfg_q_value_cutoff default_config) ?fdr example_disease_table = ?kept"
    using example_kept by (simp add: default_config_def)
  have m: "series_mean [Num 1, Num 4, Num 3, Num 0] = Num 2"
    and m': "series_mean [Num 1, Num 7, Num 4, Num 3, Num 0] = Num 3"
    by (simp_all add: series_mean_def)
  have wf: "\<forall>d st1 fdr.
      gsva (r_session example_env) example_disease (cfg_gene_sets default_config)
        (cfg_gsva_method default_config) (cfg_single_sample default_config)
        (cfg_permutations default_config) (cfg_mx_diff default_config) True
        (fresh_state\<lparr>GSVA_CACHE := respawn_cache_if_needed example_env (GSVA_CACHE fresh_state)\<rparr>) =
        (Inr d, st1) \<and>
      map_of (series d) ''fdr_q-val'' = Some fdr \<longrightarrow>
      distinct (index d) \<and> length fdr = length (index d)"
    unfolding example_disease_call using f d l by auto
  have c: "gsva (r_session example_env) example_compound (cfg_gene_sets default_config)
     (cfg_gsva_method default_config) (cfg_single_sample default_config)
     (cfg_permutations default_config) (cfg_mx_diff default_config) False
     (changed_in_place example_env
        (hashable example_disease, cfg_gsva_method default_config, cfg_gene_sets default_config)
        (keep_significant (cfg_q_value_cutoff default_config) ?fdr example_disease_table) ?st1) =
     (Inr example_compound_table, ?st2)"
    unfolding k by (rule example_compound_call)
  have j: "combine_gsea_results example_env
        (keep_significant (cfg_q_value_cutoff default_config) ?fdr example_disease_table)
        example_compound_table (cfg_na_action default_config) = Inr ?joined"
    unfolding k by (simp add: example_env_def example_compound_table_def)
  have s: "map_of (series ?joined) ''score'' = Some [Num 1, Num 4, Num 3, Num 0]"
    by simp
  have "\<exists>d st1 fdr c joined score.
         gsva (r_session example_env) example_disease (cfg_gene_sets default_config)
           (cfg_gsva_method default_config) (cfg_single_sample default_config)
           (cfg_permutations default_config) (cfg_mx_diff default_config) True
           (fresh_state\<lparr>GSVA_CACHE := respawn_cache_if_needed example_env (GSVA_CACHE fresh_state)\<rparr>) =
           (Inr d, st1) \<and>
         map_of (series d) ''fdr_q-val'' = Some fdr \<and>
         gsva (r_session example_env) example_compound (cfg_gene_sets default_config)
           (cfg_gsva_method default_config) (cfg_single_sample default_config)
           (cfg_permutations default_config) (cfg_mx_diff default_config) False
           (changed_in_place example_env
              (hashable example_disease, cfg_gsva_method default_config, cfg_gene_sets default_config)
              (keep_significant (cfg_q_value_cutoff default_config) fdr d) st1) = (Inr c, ?st2) \<and>
         combine_gsea_results example_env
           (keep_significant (cfg_q_value_cutoff default_config) fdr d) c
           (cfg_na_action default_config) = Inr joined \<and>
         map_of (series joined) ''score'' = Some score \<and>
         Num 2 = series_mean score"
    using example_disease_call f c j s m [symmetric] by blast
  with gsva_score_mean [OF wf, where compound = example_compound and v = "Num 2" and st' = ?st2]
  have "gsva_score example_env default_config example_disease example_compound fresh_state =
     (Inr (Num 2), ?st2)"
    by blast
  with f d l k m m' show ?thesis by blast
qed

section \<open>The claims about the layers\<close>

lemma dict_set_keys_present:
  "k \<in> fst ` set layers \<Longrightarrow> map fst (dict_set layers k a) = map fst layers"
  by (induction layers) force+

lemma dict_set_keys_absent:
  "k \<notin> fst ` set layers \<Longrightarrow> map fst (dict_set layers k a) = map fst layers @ [k]"
  by (induction layers) auto

lemma copy_layers_result:
  "distinct (map fst layers @ map fst data) \<Longrightarrow>
     \<exists>extra ls. copy_layers data layers h = (ls, h @ extra) \<and>
                map fst ls = map fst layers @ map fst data"
proof (induction data arbitrary: layers h)
  case Nil
  then show ?case by simp
next
  case (Cons p data)
  obtain k a where p: "p = (k, a)" by (cases p)
  from Cons.prems have k: "k \<notin> fst ` set layers" by (auto simp: p)
  then have keys: "map fst (dict_set layers k (length h)) = map fst layers @ [k]"
    by (rule dict_set_keys_absent)
  with Cons.prems have "distinct (map fst (dict_set layers k (length h)) @ map fst data)"
    by (simp add: p)
  from Cons.IH [OF this, of "h @ [h ! a]"] obtain extra ls
    where "copy_layers data (dict_set layers k (length h)) (h @ [h ! a]) = (ls, (h @ [h ! a]) @ extra)"
      and "map fst ls = map fst (dict_set layers k (length h)) @ map fst data"
    by blast
  then show ?case by (simp add: p keys)
qed

lemma filter_layers_result:
  "\<exists>extra ls. filter_layers func layers h = (ls, h @ extra) \<and> map fst ls = map fst layers"
proof (induction layers arbitrary: h)
  case Nil
  then show ?case by simp
next
  case (Cons p layers)
  obtain k a where p: "p = (k, a)" by (cases p)
  from Cons.IH [of "h @ [select_rows func (h ! a)]"] obtain extra ls
    where "filter_layers func layers (h @ [select_rows func (h ! a)]) =
             (ls, (h @ [select_rows func (h ! a)]) @ extra)"
      and "map fst ls = map fst layers"
    by blast
  then show ?case by (simp add: p)
qed

lemma store_mapped_layers:
  "distinct (map fst data) \<Longrightarrow> map fst layers = map fst data \<Longrightarrow>
     fst (store_mapped mapper data layers h) = data"
proof -
  have gen: "fst (store_mapped mapper data (done @ layers) h) = done @ data"
    if "distinct (map fst done @ map fst data)" "map fst layers = map fst data"
    for "done" :: frames
    using that
  proof (induction data arbitrary: "done" layers h)
    case Nil
    then show ?case by simp
  next
    case (Cons p data)
    obtain k a where p: "p = (k, a)" by (cases p)
    from Cons.prems(2) obtain x layers' where l: "layers = (k, x) # layers'"
      and l': "map fst layers' = map fst data"
      by (cases layers) (auto simp: p)
    from Cons.prems(1) have "k \<notin> fst ` set done" by (auto simp: p)
    then have "dict_set (done @ layers) k a = (done @ [(k, a)]) @ layers'"
      unfolding l by (induction "done") auto
    moreover have "distinct (map fst (done @ [(k, a)]) @ map fst data)"
      using Cons.prems(1) by (simp add: p)
    ultimately show ?case
      using Cons.IH [of "done @ [(k, a)]" layers'] l' by (simp add: p)
  qed
  assume "distinct (map fst data)" "map fst layers = map fst data"
  with gen [of "[]"] show ?thesis by simp
qed

lemma store_mapped_store:
  "distinct (map snd data) \<Longrightarrow> \<forall>a \<in> snd ` set data. a < length h \<Longrightarrow>
     length (snd (store_mapped mapper data layers h)) = length h \<and>
     (\<forall>a < length h. snd (store_mapped mapper data layers h) ! a =
        (if a \<in> snd ` set data then map_index mapper (h ! a) else h ! a))"
proof (induction data arbitrary: layers h)
  case Nil
  then show ?case by simp
next
  case (Cons p data)
  obtain k a where p: "p = (k, a)" by (cases p)
  let ?h = "h[a := map_index mapper (h ! a)]"
  from Cons.prems have d: "distinct (map snd data)" and a: "a \<notin> snd ` set data" "a < length h"
    and r: "\<forall>b \<in> snd ` set data. b < length ?h"
    by (auto simp: p)
  from Cons.IH [OF d r, of "dict_set layers k a"]
  have IH: "length (snd (store_mapped mapper data (dict_set layers k a) ?h)) = length ?h"
    "\<And>b. b < length ?h \<Longrightarrow> snd (store_mapped mapper data (dict_set layers k a) ?h) ! b =
        (if b \<in> snd ` set data then map_index mapper (?h ! b) else ?h ! b)"
    by blast+
  show ?case
  proof (intro conjI allI impI)
    show "length (snd (store_mapped mapper (p # data) layers h)) = length h"
      using IH(1) by (simp add: p)
    fix b assume b: "b < length h"
    show "snd (store_mapped mapper (p # data) layers h) ! b =
        (if b \<in> snd ` set (p # data) then map_index mapper (h ! b) else h ! b)"
    proof (cases "b = a")
      case True
      with IH(2) [of a] a show ?thesis by (simp add: p)
    next
      case False
      with IH(2) [of b] b show ?thesis by (auto simp: p)
    qed
  qed
qed


lemma apply_columns_map:
  assumes "\<forall>c \<in> set cs. f c = Inr (g c)"
  shows "apply_columns f cs = Inr (map g cs)"
  using assms by (induction cs) simp_all

text \<open>
  Claim C9, as stated, fails for a data mapping that lists one DataFrame under two keys: the
  second loop of the constructor maps the index of that object once per key, so the stored
  layer is the input with \<open>mapper\<close> applied twice.
\<close>

theorem Layers_init_shared_frame:
  "fst (Layers_init shared_data Suc keep_all [example_layer]) = shared_data \<and>
   snd (Layers_init shared_data Suc keep_all [example_layer]) ! 0 =
     \<lparr>index = [3, 4], series = [(''TP53'', [Num 1, Num 2])]\<rparr> \<and>
   map_index Suc example_layer = \<lparr>index = [2, 3], series = [(''TP53'', [Num 1, Num 2])]\<rparr>"
  by (simp add: Layers_init_def shared_data_def example_layer_def map_index_def select_rows_def
      keep_all_def)

text \<open>
  Claim C9, amended. For every data mapping whose values are distinct DataFrame objects, and
  every mapper and filter argument, after \<^verbatim>\<open>Layers(data, mapper, filter)\<close> the stored
  \<^verbatim>\<open>layers[k]\<close> is, for each key \<open>k\<close>, the caller's own DataFrame \<^verbatim>\<open>data[k]\<close>, which now is the
  input with \<open>mapper\<close> applied to its index; the keys keep their order and no other object of
  the caller is changed. The filter argument does not occur in the result: the filtered copies
  are overwritten by the second loop.
\<close>

theorem Layers_init_distinct_frames:
  assumes keys: "distinct (map fst data)"
    and objects: "distinct (map snd data)"
    and valid: "\<forall>a \<in> snd ` set data. a < length h"
  shows "\<exists>h'. Layers_init data mapper func h = (data, h') \<and>
           (\<forall>(k, a) \<in> set data. h' ! a = map_index mapper (h ! a)) \<and>
           (\<forall>a < length h. a \<notin> snd ` set data \<longrightarrow> h' ! a = h ! a)"
proof -
  from copy_layers_result [of "[]" data h] keys obtain e1 ls1
    where c: "copy_layers data [] h = (ls1, h @ e1)" and k1: "map fst ls1 = map fst data"
    by auto
  from filter_layers_result [of func ls1 "h @ e1"] obtain e2 ls2
    where f: "filter_layers func ls1 (h @ e1) = (ls2, (h @ e1) @ e2)"
      and k2: "map fst ls2 = map fst ls1"
    by blast
  let ?h2 = "(h @ e1) @ e2"
  let ?r = "store_mapped mapper data ls2 ?h2"
  have run: "Layers_init data mapper func h = ?r"
    by (simp add: Layers_init_def c f)
  have l: "fst ?r = data"
    using keys k1 k2 by (simp add: store_mapped_layers)
  have v2: "\<forall>a \<in> snd ` set data. a < length ?h2"
    using valid by auto
  from store_mapped_store [OF objects v2, of mapper ls2]
  have s: "\<And>a. a < length ?h2 \<Longrightarrow> snd ?r ! a =
        (if a \<in> snd ` set data then map_index mapper (?h2 ! a) else ?h2 ! a)"
    by blast
  have old: "?h2 ! a = h ! a" if "a < length h" for a
    using that by (simp add: nth_append)
  have 1: "snd ?r ! a = map_index mapper (h ! a)" if "(k, a) \<in> set data" for k a
  proof -
    from that have m: "a \<in> snd ` set data" by force
    with valid have "a < length h" by blast
    with s [of a] m old [of a] show ?thesis by simp
  qed
  have 2: "snd ?r ! a = h ! a" if "a < length h" "a \<notin> snd ` set data" for a
    using s [of a] old [of a] that by simp
  have "Layers_init data mapper func h = (data, snd ?r)"
    using run l by (metis prod.collapse)
  with 1 2 show ?thesis by blast
qed

theorem Layers_init_distinct_frames_witness:
  "distinct (map fst example_data) \<and> distinct (map snd example_data) \<and>
   fst (Layers_init example_data Suc keep_none [example_layer, other_layer]) = example_data \<and>
   snd (Layers_init example_data Suc keep_none [example_layer, other_layer]) ! 0 =
     \<lparr>index = [2, 3], series = [(''TP53'', [Num 1, Num 2])]\<rparr> \<and>
   snd (Layers_init example_data Suc keep_none [example_layer, other_layer]) ! 1 =
     \<lparr>index = [2, 6], series = [(''BRCA1'', [Num 0, NaN])]\<rparr>"
proof -
  have h1: "distinct (map fst example_data)" and h2: "distinct (map snd example_data)"
    by (simp_all add: example_data_def)
  have h3: "\<forall>a \<in> snd ` set example_data. a < length [example_layer, other_layer]"
    by (simp add: example_data_def)
  from Layers_init_distinct_frames [OF h1 h2 h3, of Suc keep_none] obtain h'
    where r: "Layers_init example_data Suc keep_none [example_layer, other_layer] = (example_data, h')"
      and m: "\<forall>(k, a) \<in> set example_data. h' ! a = map_index Suc ([example_layer, other_layer] ! a)"
    by blast
  from m have "h' ! 0 = map_index Suc example_layer" "h' ! 1 = map_index Suc other_layer"
    by (simp_all add: example_data_def)
  then have "h' ! 0 = \<lparr>index = [2, 3], series = [(''TP53'', [Num 1, Num 2])]\<rparr>"
    and "h' ! 1 = \<lparr>index = [2, 6], series = [(''BRCA1'', [Num 0, NaN])]\<rparr>"
    by (simp_all add: map_index_def example_layer_def other_layer_def)
  with r h1 h2 show ?thesis by simp
qed

text \<open>
  Claim C10. Let \<^verbatim>\<open>protein_sequences\<close> be loaded and let every lookup of a column's protein
  either give a length or fail with StatisticsError or KeyError, the two exceptions that are
  caught. Then \<^verbatim>\<open>normalize_by_protein_length\<close> returns the table in which every column whose
  protein has a known average length is divided, value by value, by that length, and every
  other column is divided by the overall average length when \<^verbatim>\<open>recover=True\<close> and is NaN in
  every row when \<^verbatim>\<open>recover=False\<close>.
\<close>

theorem normalize_by_protein_length_columns:
  assumes loaded: "protein_sequences P = Some average_length"
    and lookups: "\<forall>c \<in> set (series df).
                    (\<exists>protein_length. average_length (Some (fst c)) = Inr protein_length) \<or>
                    average_length (Some (fst c)) = Inl StatisticsError \<or>
                    average_length (Some (fst c)) = Inl KeyError"
    and overall: "recover \<longrightarrow> average_length None = Inr average"
  shows "normalize_by_protein_length P recover df =
           Inr (df\<lparr>series := map (normalized_column P average_length recover average) (series df)\<rparr>)"
proof -
  have "normalize P recover c = Inr (normalized_column P average_length recover average c)"
    if "c \<in> set (series df)" for c
    using lookups that loaded overall
    by (auto simp: normalize_def normalized_column_def split: sum.splits)
  then have "apply_columns (normalize P recover) (series df) =
      Inr (map (normalized_column P average_length recover average) (series df))"
    by (intro apply_columns_map) blast
  then show ?thesis by (simp add: normalize_by_protein_length_def)
qed

theorem normalize_by_protein_length_columns_witness:
  "normalize_by_protein_length example_proteins True example_mutations =
     Inr \<lparr>index = [''P1'', ''P2''],
          series = [(''TP53'', [Num 2, Num 0]), (''UNKNOWN'', [Num 2, Num (1 / 2)])]\<rparr> \<and>
   normalize_by_protein_length example_proteins False example_mutations =
     Inr \<lparr>index = [''P1'', ''P2''],
          series = [(''TP53'', [Num 2, Num 0]), (''UNKNOWN'', [NaN, NaN])]\<rparr>"
proof -
  obtain average_length where a: "protein_sequences example_proteins = Some average_length"
    and al: "average_length = (\<lambda>name.
         if name = None then Inr (Num 4)
         else if name = Some ''TP53'' then Inr (Num 2)
         else Inl KeyError)"
    by (simp add: example_proteins_def)
  have l: "\<forall>c \<in> set (series example_mutations).
                    (\<exists>protein_length. average_length (Some (fst c)) = Inr protein_length) \<or>
                    average_length (Some (fst c)) = Inl StatisticsError \<or>
                    average_length (Some (fst c)) = Inl KeyError"
    by (simp add: al example_mutations_def)
  have o: "recover \<longrightarrow> average_length None = Inr (Num 4)" for recover
    by (simp add: al)
  have t: "true_divide example_proteins = (\<lambda>x y. case (x, y) of (Num a, Num b) \<Rightarrow> Num (a / b) | _ \<Rightarrow> NaN)"
    by (simp add: example_proteins_def)
  from normalize_by_protein_length_columns [OF a l o, of True]
  have 1: "normalize_by_protein_length example_proteins True example_mutations =
     Inr \<lparr>index = [''P1'', ''P2''],
          series = [(''TP53'', [Num 2, Num 0]), (''UNKNOWN'', [Num 2, Num (1 / 2)])]\<rparr>"
    by (simp add: normalized_column_def al t example_mutations_def)
  from normalize_by_protein_length_columns [OF a l o, of False]
  have 2: "normalize_by_protein_length example_proteins False example_mutations =
     Inr \<lparr>index = [''P1'', ''P2''],
          series = [(''TP53'', [Num 2, Num 0]), (''UNKNOWN'', [NaN, NaN])]\<rparr>"
    by (simp add: normalized_column_def al t example_mutations_def)
  from 1 2 show ?thesis by simp
qed

end
